theory Spec2Isabelle
  imports Main
begin

section \<open>The CSV import pipeline\<close>

text \<open>
  A shallow embedding of the CSV import pipeline: the client-side date-range filter, event
  mapper, batcher and upload coordinator (\<^verbatim>\<open>client/src/lib/import/csv-worker-manager.ts\<close>,
  \<^verbatim>\<open>client/src/workers/csv-import.worker.ts\<close> and the worker-based manager that goes with
  it), and the server-side batch ingestion handler \<^verbatim>\<open>batchImportEvents\<close>.
\<close>

subsection \<open>Timestamps (luxon's DateTime, as far as the pipeline uses it)\<close>

text \<open>
  The pipeline calls \<^verbatim>\<open>DateTime.fromFormat(s, fmt, { zone: "utc" })\<close> with the two formats
  \<^verbatim>\<open>yyyy-MM-dd\<close> and \<^verbatim>\<open>yyyy-MM-dd HH:mm:ss\<close>, \<^verbatim>\<open>startOf("day")\<close>,
  \<^verbatim>\<open>endOf("day")\<close>, \<^verbatim>\<open>isValid\<close> and the comparisons \<^verbatim>\<open><\<close> and \<^verbatim>\<open>>\<close>.
  luxon is a library outside the repository; it is modelled here as far as these calls go.
  A DateTime is either invalid or an instant, held as milliseconds since the epoch (UTC).
  Every token of the two formats is a fixed number of ASCII digits, the separators are
  literal, and the whole string must match. After matching, the fields are range-checked:
  month 1..12, day within the month, hour 0..23 (or 24:00:00), minute and second 0..59.
\<close>

datatype DateTime = Invalid | Instant int

definition isValid :: "DateTime \<Rightarrow> bool" where
  "isValid d = (case d of Invalid \<Rightarrow> False | Instant _ \<Rightarrow> True)"

definition isDigit :: "char \<Rightarrow> bool" where
  "isDigit c = (let n = (of_char c :: nat) in 48 \<le> n \<and> n \<le> 57)"

definition digitVal :: "char \<Rightarrow> int" where
  "digitVal c = int (of_char c) - 48"

text \<open>A run of digits read as a decimal number; \<open>None\<close> when a character is not a digit.\<close>

fun intUnit :: "string \<Rightarrow> int \<Rightarrow> int option" where
  "intUnit [] acc = Some acc"
| "intUnit (c # cs) acc = (if isDigit c then intUnit cs (10 * acc + digitVal c) else None)"

definition isLeapYear :: "int \<Rightarrow> bool" where
  "isLeapYear y = (y mod 4 = 0 \<and> (y mod 400 = 0 \<or> y mod 100 \<noteq> 0))"

definition daysInMonth :: "int \<Rightarrow> int \<Rightarrow> int" where
  "daysInMonth y m =
     (if m = 2 then (if isLeapYear y then 29 else 28)
      else if m = 4 \<or> m = 6 \<or> m = 9 \<or> m = 11 then 30 else 31)"

text \<open>Days from 1970-01-01 to the first day of year \<open>y\<close> (proleptic Gregorian calendar).\<close>

definition daysBeforeYear :: "int \<Rightarrow> int" where
  "daysBeforeYear y =
     (let p = y - 1 in 365 * p + p div 4 - p div 100 + p div 400 - 719162)"

fun daysBeforeMonth :: "int \<Rightarrow> nat \<Rightarrow> int" where
  "daysBeforeMonth y 0 = 0"
| "daysBeforeMonth y (Suc k) = daysBeforeMonth y k + daysInMonth y (int (Suc k))"

definition objToTS :: "int \<Rightarrow> int \<Rightarrow> int \<Rightarrow> int \<Rightarrow> int \<Rightarrow> int \<Rightarrow> int" where
  "objToTS y m d h mi s =
     (((daysBeforeYear y + daysBeforeMonth y (nat (m - 1)) + (d - 1)) * 24 + h) * 60 + mi) * 60000
       + s * 1000"

definition validDate :: "int \<Rightarrow> int \<Rightarrow> int \<Rightarrow> bool" where
  "validDate y m d = (1 \<le> m \<and> m \<le> 12 \<and> 1 \<le> d \<and> d \<le> daysInMonth y m)"

definition validTime :: "int \<Rightarrow> int \<Rightarrow> int \<Rightarrow> bool" where
  "validTime h mi s =
     (((0 \<le> h \<and> h \<le> 23) \<or> (h = 24 \<and> mi = 0 \<and> s = 0))
      \<and> 0 \<le> mi \<and> mi \<le> 59 \<and> 0 \<le> s \<and> s \<le> 59)"

text \<open>\<^verbatim>\<open>DateTime.fromFormat(s, "yyyy-MM-dd", { zone: "utc" })\<close>\<close>

definition fromFormat_date :: "string \<Rightarrow> DateTime" where
  "fromFormat_date str =
     (case str of
        [y1, y2, y3, y4, s1, m1, m2, s2, d1, d2] \<Rightarrow>
          (if s1 = CHR ''-'' \<and> s2 = CHR ''-'' then
             (case (intUnit [y1, y2, y3, y4] 0, intUnit [m1, m2] 0, intUnit [d1, d2] 0) of
                (Some y, Some m, Some d) \<Rightarrow>
                  (if validDate y m d then Instant (objToTS y m d 0 0 0) else Invalid)
              | _ \<Rightarrow> Invalid)
           else Invalid)
      | _ \<Rightarrow> Invalid)"

text \<open>\<^verbatim>\<open>DateTime.fromFormat(s, "yyyy-MM-dd HH:mm:ss", { zone: "utc" })\<close>\<close>

definition fromFormat_datetime :: "string \<Rightarrow> DateTime" where
  "fromFormat_datetime str =
     (if length str = 19 \<and> str ! 4 = CHR ''-'' \<and> str ! 7 = CHR ''-'' \<and> str ! 10 = CHR '' ''
         \<and> str ! 13 = CHR '':'' \<and> str ! 16 = CHR '':'' then
        (case (intUnit (take 4 str) 0, intUnit (take 2 (drop 5 str)) 0,
               intUnit (take 2 (drop 8 str)) 0, intUnit (take 2 (drop 11 str)) 0,
               intUnit (take 2 (drop 14 str)) 0, intUnit (take 2 (drop 17 str)) 0) of
           (Some y, Some m, Some d, Some h, Some mi, Some s) \<Rightarrow>
             (if validDate y m d \<and> validTime h mi s then Instant (objToTS y m d h mi s)
              else Invalid)
         | _ \<Rightarrow> Invalid)
      else Invalid)"

definition msPerDay :: int where
  "msPerDay = 86400000"

definition startOf_day :: "DateTime \<Rightarrow> DateTime" where
  "startOf_day d = (case d of Invalid \<Rightarrow> Invalid | Instant t \<Rightarrow> Instant (t - t mod msPerDay))"

definition endOf_day :: "DateTime \<Rightarrow> DateTime" where
  "endOf_day d =
     (case d of Invalid \<Rightarrow> Invalid | Instant t \<Rightarrow> Instant (t - t mod msPerDay + msPerDay - 1))"

text \<open>
  JavaScript's \<^verbatim>\<open>a < b\<close> on two DateTimes compares \<^verbatim>\<open>valueOf()\<close>, which is the
  timestamp, or NaN for an invalid DateTime; every comparison with NaN is false.
\<close>

definition dt_less :: "DateTime \<Rightarrow> DateTime \<Rightarrow> bool" where
  "dt_less a b = (case (a, b) of (Instant x, Instant y) \<Rightarrow> x < y | _ \<Rightarrow> False)"

subsection \<open>The date-range filter\<close>

text \<open>
  The two module-level variables \<^verbatim>\<open>earliestAllowedDate\<close> and \<^verbatim>\<open>latestAllowedDate\<close>
  (fields of the class in \<^verbatim>\<open>csv-worker-manager.ts\<close>), each \<^verbatim>\<open>DateTime | null\<close>.
\<close>

record DateRange =
  earliestAllowedDate :: "DateTime option"
  latestAllowedDate :: "DateTime option"

text \<open>
  \<^verbatim>\<open>createDateRangeFilter\<close> of the worker: both variables are assigned first, then an
  invalid bound throws (\<open>Inl\<close> the error message).
\<close>

definition createDateRangeFilter :: "string \<Rightarrow> string \<Rightarrow> string + DateRange" where
  "createDateRangeFilter earliestAllowedDateStr latestAllowedDateStr =
     (let e = startOf_day (fromFormat_date earliestAllowedDateStr);
          l = endOf_day (fromFormat_date latestAllowedDateStr)
      in if \<not> isValid e then Inl (''Invalid earliest allowed date: '' @ earliestAllowedDateStr)
         else if \<not> isValid l then Inl (''Invalid latest allowed date: '' @ latestAllowedDateStr)
         else Inr \<lparr> earliestAllowedDate = Some e, latestAllowedDate = Some l \<rparr>)"

definition isDateInRange :: "DateRange \<Rightarrow> string \<Rightarrow> bool" where
  "isDateInRange r dateStr =
     (let createdAt = fromFormat_datetime dateStr
      in if \<not> isValid createdAt then False
         else if (case earliestAllowedDate r of None \<Rightarrow> False | Some e \<Rightarrow> dt_less createdAt e)
           then False
         else if (case latestAllowedDate r of None \<Rightarrow> False | Some l \<Rightarrow> dt_less l createdAt)
           then False
         else True)"

subsection \<open>JavaScript values and the event mapper\<close>

text \<open>
  A parsed row is a \<^verbatim>\<open>Record<string, unknown>\<close>. Reading a property that is not there
  gives \<^verbatim>\<open>undefined\<close>, so a row is a total function from property names to values.
  Papa.parse is called with \<^verbatim>\<open>header: true\<close> and without \<^verbatim>\<open>dynamicTyping\<close>, so the
  cells it delivers are strings; the other kinds of value are kept for the two operators
  the mapper applies, \<^verbatim>\<open>x || ""\<close> and \<^verbatim>\<open>String(x)\<close>. Numbers are integers of
  absolute value below \<open>10 ^ 21\<close> here, which \<^verbatim>\<open>String\<close> prints in decimal digits;
  fractions, NaN and the larger numbers, which it prints in exponent form, are outside
  the model.
\<close>

datatype js_value = JUndefined | JNull | JBool bool | JNum int | JStr string

type_synonym RawRecord = "string \<Rightarrow> js_value"

definition digitChar :: "nat \<Rightarrow> char" where
  "digitChar n = char_of (48 + n)"

fun showNat :: "nat \<Rightarrow> string" where
  "showNat n = (if n < 10 then [digitChar n] else showNat (n div 10) @ [digitChar (n mod 10)])"

declare showNat.simps [simp del]

definition showInt :: "int \<Rightarrow> string" where
  "showInt i = (if i < 0 then CHR ''-'' # showNat (nat (- i)) else showNat (nat i))"

definition truthy :: "js_value \<Rightarrow> bool" where
  "truthy v =
     (case v of JUndefined \<Rightarrow> False | JNull \<Rightarrow> False | JBool b \<Rightarrow> b
      | JNum n \<Rightarrow> n \<noteq> 0 | JStr s \<Rightarrow> s \<noteq> [])"

definition js_or :: "js_value \<Rightarrow> js_value \<Rightarrow> js_value" where
  "js_or a b = (if truthy a then a else b)"

definition js_String :: "js_value \<Rightarrow> string" where
  "js_String v =
     (case v of JUndefined \<Rightarrow> ''undefined'' | JNull \<Rightarrow> ''null''
      | JBool b \<Rightarrow> (if b then ''true'' else ''false'')
      | JNum n \<Rightarrow> showInt n | JStr s \<Rightarrow> s)"

text \<open>The interface \<^verbatim>\<open>UmamiEvent\<close> of \<^verbatim>\<open>types.ts\<close>: twenty string fields.\<close>

record UmamiEvent =
  session_id :: string
  hostname :: string
  browser :: string
  os :: string
  device :: string
  screen :: string
  language :: string
  country :: string
  region :: string
  city :: string
  url_path :: string
  url_query :: string
  referrer_path :: string
  referrer_query :: string
  referrer_domain :: string
  page_title :: string
  event_type :: string
  event_name :: string
  distinct_id :: string
  created_at :: string

text \<open>
  The column table \<^verbatim>\<open>umamiHeaders\<close>: the name each CSV column position is given, and
  \<^verbatim>\<open>undefined\<close> for the positions that have no destination.
\<close>

definition umamiHeaders :: "string option list" where
  "umamiHeaders =
     [None, Some ''session_id'', None, None, Some ''hostname'', Some ''browser'', Some ''os'',
      Some ''device'', Some ''screen'', Some ''language'', Some ''country'', Some ''region'',
      Some ''city'', Some ''url_path'', Some ''url_query'', None, None, None, None, None,
      Some ''referrer_path'', Some ''referrer_query'', Some ''referrer_domain'',
      Some ''page_title'', None, None, None, None, None, None, Some ''event_type'',
      Some ''event_name'', None, Some ''distinct_id'', Some ''created_at'', None]"

text \<open>The recognized fields are the names the table holds.\<close>

definition recognizedFields :: "string list" where
  "recognizedFields = List.map_filter id umamiHeaders"

text \<open>
  The object literal \<^verbatim>\<open>umamiEvent\<close> that \<^verbatim>\<open>handleParsedRow\<close> builds (the same in the
  worker and in the manager): every field is \<^verbatim>\<open>String(rawEvent.f || "")\<close>.
\<close>

definition toUmamiEvent :: "RawRecord \<Rightarrow> UmamiEvent" where
  "toUmamiEvent rawEvent =
     \<lparr> session_id = js_String (js_or (rawEvent ''session_id'') (JStr '''')),
       hostname = js_String (js_or (rawEvent ''hostname'') (JStr '''')),
       browser = js_String (js_or (rawEvent ''browser'') (JStr '''')),
       os = js_String (js_or (rawEvent ''os'') (JStr '''')),
       device = js_String (js_or (rawEvent ''device'') (JStr '''')),
       screen = js_String (js_or (rawEvent ''screen'') (JStr '''')),
       language = js_String (js_or (rawEvent ''language'') (JStr '''')),
       country = js_String (js_or (rawEvent ''country'') (JStr '''')),
       region = js_String (js_or (rawEvent ''region'') (JStr '''')),
       city = js_String (js_or (rawEvent ''city'') (JStr '''')),
       url_path = js_String (js_or (rawEvent ''url_path'') (JStr '''')),
       url_query = js_String (js_or (rawEvent ''url_query'') (JStr '''')),
       referrer_path = js_String (js_or (rawEvent ''referrer_path'') (JStr '''')),
       referrer_query = js_String (js_or (rawEvent ''referrer_query'') (JStr '''')),
       referrer_domain = js_String (js_or (rawEvent ''referrer_domain'') (JStr '''')),
       page_title = js_String (js_or (rawEvent ''page_title'') (JStr '''')),
       event_type = js_String (js_or (rawEvent ''event_type'') (JStr '''')),
       event_name = js_String (js_or (rawEvent ''event_name'') (JStr '''')),
       distinct_id = js_String (js_or (rawEvent ''distinct_id'') (JStr '''')),
       created_at = js_String (js_or (rawEvent ''created_at'') (JStr '''')) \<rparr>"

text \<open>The properties of an event, by name (\<^verbatim>\<open>Object.entries\<close>).\<close>

definition entries :: "UmamiEvent \<Rightarrow> (string \<times> string) list" where
  "entries e =
     [(''session_id'', session_id e), (''hostname'', hostname e), (''browser'', browser e),
      (''os'', os e), (''device'', device e), (''screen'', screen e),
      (''language'', language e), (''country'', country e), (''region'', region e),
      (''city'', city e), (''url_path'', url_path e), (''url_query'', url_query e),
      (''referrer_path'', referrer_path e), (''referrer_query'', referrer_query e),
      (''referrer_domain'', referrer_domain e), (''page_title'', page_title e),
      (''event_type'', event_type e), (''event_name'', event_name e),
      (''distinct_id'', distinct_id e), (''created_at'', created_at e)]"

definition field :: "UmamiEvent \<Rightarrow> string \<Rightarrow> string option" where
  "field e k = map_of (entries e) k"

subsection \<open>The wire format\<close>

text \<open>
  A request to \<^verbatim>\<open>POST /api/batch-import-events/{site}/{importId}\<close>: the two path parameters
  and the body \<^verbatim>\<open>{ events, isLastBatch? }\<close>.
\<close>

record BatchImportRequest =
  param_site :: string
  param_importId :: string
  events :: "UmamiEvent list"
  isLastBatch :: "bool option"

text \<open>
  A reply: the HTTP status and the JSON body, whose fields are those of the interface
  \<^verbatim>\<open>BatchImportResponse\<close> (each may be absent).
\<close>

record BatchImportResponse =
  statusCode :: nat
  success :: "bool option"
  importedCount :: "nat option"
  resp_quotaExceeded :: "bool option"
  message :: "string option"
  error :: "string option"

text \<open>A fetch settles with a reply, or rejects with an error (its message).\<close>

datatype FetchOutcome = NetworkError string | HttpResponse BatchImportResponse

subsection \<open>The upload coordinator (class CSVWorkerManager of csv-worker-manager.ts)\<close>

text \<open>
  The fields of the class, and three fields that record what the class does to its
  surroundings: \<open>inFlight\<close>, the requests whose \<^verbatim>\<open>fetch\<close> has been called and has not
  settled; \<open>sent\<close>, every request in the order \<^verbatim>\<open>fetch\<close> was called; \<open>completions\<close>, the
  calls of the \<^verbatim>\<open>onComplete\<close> callback. \<open>hasOnComplete\<close> tells whether the constructor was
  given a callback.
\<close>

record Manager =
  aborted :: bool
  hasOnComplete :: bool
  uploadInProgress :: bool
  parsingComplete :: bool
  quotaExceeded :: bool
  mgr_siteId :: int
  mgr_importId :: string
  currentBatch :: "UmamiEvent list"
  dateRange :: DateRange
  inFlight :: "BatchImportRequest list"
  sent :: "BatchImportRequest list"
  completions :: "(bool \<times> string) list"

definition BATCH_SIZE :: nat where
  "BATCH_SIZE = 5000"

definition newManager :: "bool \<Rightarrow> Manager" where
  "newManager cb =
     \<lparr> aborted = False, hasOnComplete = cb, uploadInProgress = False, parsingComplete = False,
       quotaExceeded = False, mgr_siteId = 0, mgr_importId = [], currentBatch = [],
       dateRange = \<lparr> earliestAllowedDate = None, latestAllowedDate = None \<rparr>,
       inFlight = [], sent = [], completions = [] \<rparr>"

text \<open>\<^verbatim>\<open>if (this.onComplete) { this.onComplete(success, message); }\<close>\<close>

definition onComplete :: "Manager \<Rightarrow> bool \<Rightarrow> string \<Rightarrow> Manager" where
  "onComplete m ok msg =
     (if hasOnComplete m then m\<lparr> completions := completions m @ [(ok, msg)] \<rparr> else m)"

definition handleError :: "Manager \<Rightarrow> string \<Rightarrow> Manager" where
  "handleError m msg = onComplete m False msg"

definition terminate :: "Manager \<Rightarrow> Manager" where
  "terminate m = m\<lparr> aborted := True \<rparr>"

definition checkCompletion :: "Manager \<Rightarrow> Manager" where
  "checkCompletion m =
     (if parsingComplete m \<and> \<not> uploadInProgress m \<and> \<not> quotaExceeded m
      then onComplete m True ''Import completed successfully'' else m)"

text \<open>
  The request the coordinator builds for a batch: the URL
  \<^verbatim>\<open>/api/batch-import-events/${this.siteId}/${this.importId}\<close> and the body.
\<close>

definition requestFor :: "Manager \<Rightarrow> UmamiEvent list \<Rightarrow> bool \<Rightarrow> BatchImportRequest" where
  "requestFor m evs isLast =
     \<lparr> param_site = showInt (mgr_siteId m), param_importId = mgr_importId m, events = evs,
       isLastBatch = Some isLast \<rparr>"

text \<open>
  \<^verbatim>\<open>uploadBatch\<close> is an async function. Called, it runs to its first \<^verbatim>\<open>await\<close>: the two
  early returns, the flag, the call of \<^verbatim>\<open>fetch\<close>. This is \<open>uploadBatch\<close>. The rest runs
  when the fetch has settled: \<open>uploadBatch_resume\<close>.
\<close>

definition uploadBatch :: "Manager \<Rightarrow> UmamiEvent list \<Rightarrow> bool \<Rightarrow> Manager" where
  "uploadBatch m evs isLast =
     (if quotaExceeded m then m
      else if length evs = 0 \<and> \<not> isLast then m
      else
        (let req = requestFor m evs isLast
         in m\<lparr> uploadInProgress := True, inFlight := inFlight m @ [req],
                sent := sent m @ [req] \<rparr>))"

definition response_ok :: "BatchImportResponse \<Rightarrow> bool" where
  "response_ok r = (200 \<le> statusCode r \<and> statusCode r \<le> 299)"

text \<open>The catch block, followed by the finally block.\<close>

definition uploadFailed :: "Manager \<Rightarrow> string \<Rightarrow> Manager" where
  "uploadFailed m msg =
     (terminate (onComplete m False (''Upload failed: '' @ msg)))\<lparr> uploadInProgress := False \<rparr>"

text \<open>\<^verbatim>\<open>x || d\<close> for an optional string \<open>x\<close>: absent and empty are falsy.\<close>

definition orDefault :: "string option \<Rightarrow> string \<Rightarrow> string" where
  "orDefault x d = (case x of None \<Rightarrow> d | Some t \<Rightarrow> if t = [] then d else t)"

definition uploadBatch_resume :: "Manager \<Rightarrow> FetchOutcome \<Rightarrow> Manager" where
  "uploadBatch_resume m outcome =
     (case outcome of
        NetworkError msg \<Rightarrow> uploadFailed m msg
      | HttpResponse r \<Rightarrow>
          if \<not> response_ok r then
            uploadFailed m (orDefault (error r) (''HTTP '' @ showNat (statusCode r)))
          else if resp_quotaExceeded r = Some True then
            (onComplete (m\<lparr> quotaExceeded := True, aborted := True \<rparr>) True
               (orDefault (message r) ''Import completed with quota limits''))
            \<lparr> uploadInProgress := False \<rparr>
          else checkCompletion (m\<lparr> uploadInProgress := False \<rparr>))"

definition sendBatch :: "Manager \<Rightarrow> bool \<Rightarrow> Manager" where
  "sendBatch m isLast =
     (if length (currentBatch m) > 0 then
        (let batch = currentBatch m in uploadBatch (m\<lparr> currentBatch := [] \<rparr>) batch isLast)
      else if isLast then uploadBatch m [] isLast
      else m)"

definition handleParsedRow :: "Manager \<Rightarrow> RawRecord \<Rightarrow> Manager" where
  "handleParsedRow m row =
     (let umamiEvent = toUmamiEvent row
      in if created_at umamiEvent = [] then m
         else if \<not> isDateInRange (dateRange m) (created_at umamiEvent) then m
         else
           (let m1 = m\<lparr> currentBatch := currentBatch m @ [umamiEvent] \<rparr>
            in if length (currentBatch m1) \<ge> BATCH_SIZE then sendBatch m1 False else m1))"

definition handleParseComplete :: "Manager \<Rightarrow> Manager" where
  "handleParseComplete m =
     (let m1 = sendBatch (m\<lparr> parsingComplete := True \<rparr>) True
      in if \<not> uploadInProgress m1 then checkCompletion m1 else m1)"

text \<open>
  \<^verbatim>\<open>startImport\<close>, up to the call of \<^verbatim>\<open>Papa.parse\<close>. With an invalid bound it reports the
  error and does not start the parser.
\<close>

definition startImport :: "Manager \<Rightarrow> int \<Rightarrow> string \<Rightarrow> string \<Rightarrow> string \<Rightarrow> Manager" where
  "startImport m site iid earliestStr latestStr =
     (let e = startOf_day (fromFormat_date earliestStr);
          l = endOf_day (fromFormat_date latestStr);
          m1 = m\<lparr> mgr_siteId := site, mgr_importId := iid, parsingComplete := False,
                  uploadInProgress := False, currentBatch := [], aborted := False,
                  quotaExceeded := False,
                  dateRange := \<lparr> earliestAllowedDate = Some e, latestAllowedDate = Some l \<rparr> \<rparr>
      in if \<not> isValid e then handleError m1 (''Invalid earliest allowed date: '' @ earliestStr)
         else if \<not> isValid l then handleError m1 (''Invalid latest allowed date: '' @ latestStr)
         else m1)"

text \<open>
  What happens to a manager after \<^verbatim>\<open>startImport\<close>, one event at a time (JavaScript runs
  each callback to its end before the next): the three callbacks given to Papa.parse,
  the settling of the fetch at a position of \<open>inFlight\<close>, and a call of \<^verbatim>\<open>terminate\<close>.
\<close>

datatype Event =
    Step "RawRecord option"
  | ParseComplete
  | ParseError string
  | FetchSettled nat FetchOutcome
  | Terminate

definition dispatch :: "Manager \<Rightarrow> Event \<Rightarrow> Manager" where
  "dispatch m ev =
     (case ev of
        Step data \<Rightarrow>
          (if aborted m \<or> quotaExceeded m then m
           else (case data of None \<Rightarrow> m | Some row \<Rightarrow> handleParsedRow m row))
      | ParseComplete \<Rightarrow> (if aborted m then m else handleParseComplete m)
      | ParseError msg \<Rightarrow> (if aborted m then m else handleError m msg)
      | FetchSettled i outcome \<Rightarrow>
          (if i < length (inFlight m)
           then uploadBatch_resume (m\<lparr> inFlight := take i (inFlight m) @ drop (Suc i) (inFlight m) \<rparr>)
                  outcome
           else m)
      | Terminate \<Rightarrow> terminate m)"

definition run :: "Manager \<Rightarrow> Event list \<Rightarrow> Manager" where
  "run m evs = foldl dispatch m evs"

subsection \<open>The worker-based version of the client\<close>

text \<open>
  The sources hold a second version of the client: a Web Worker
  (\<^verbatim>\<open>csv-import.worker.ts\<close>) that parses, filters and cuts the rows into chunks, and a
  manager that uploads each chunk it is sent. It has no \<^verbatim>\<open>isLastBatch\<close> and no
  handling of \<^verbatim>\<open>quotaExceeded\<close>. The filter and the mapper are the ones above. Names
  that the two versions share carry the suffix \<open>_worker\<close> (the worker) or \<open>_v1\<close> (its
  manager) here.
\<close>

datatype WorkerMessageToMain =
    CHUNK_READY "UmamiEvent list" nat nat nat
  | COMPLETE nat nat nat
  | ERROR string

text \<open>The module-level variables of the worker, and the messages it has posted.\<close>

record Worker =
  wk_currentBatch :: "UmamiEvent list"
  totalParsed :: nat
  totalSkipped :: nat
  totalErrors :: nat
  wk_dateRange :: DateRange
  posted :: "WorkerMessageToMain list"

definition sendChunk :: "Worker \<Rightarrow> Worker" where
  "sendChunk w =
     (if length (wk_currentBatch w) > 0 then
        w\<lparr> posted := posted w
               @ [CHUNK_READY (wk_currentBatch w) (totalParsed w) (totalSkipped w) (totalErrors w)],
           wk_currentBatch := [] \<rparr>
      else w)"

definition handleParsedRow_worker :: "Worker \<Rightarrow> RawRecord \<Rightarrow> Worker" where
  "handleParsedRow_worker w row =
     (let umamiEvent = toUmamiEvent row
      in if created_at umamiEvent = [] then w\<lparr> totalSkipped := totalSkipped w + 1 \<rparr>
         else if \<not> isDateInRange (wk_dateRange w) (created_at umamiEvent)
           then w\<lparr> totalSkipped := totalSkipped w + 1 \<rparr>
         else
           (let w1 = w\<lparr> wk_currentBatch := wk_currentBatch w @ [umamiEvent],
                        totalParsed := totalParsed w + 1 \<rparr>
            in if length (wk_currentBatch w1) \<ge> BATCH_SIZE then sendChunk w1 else w1))"

text \<open>
  The callbacks given to Papa.parse by \<^verbatim>\<open>parseCSV\<close>: \<^verbatim>\<open>step\<close> (with the row, if there
  is one, and whether the row came with errors), \<^verbatim>\<open>complete\<close> and \<^verbatim>\<open>error\<close>.
\<close>

definition step_worker :: "Worker \<Rightarrow> RawRecord option \<Rightarrow> bool \<Rightarrow> Worker" where
  "step_worker w data hasErrors =
     (let w1 = (case data of None \<Rightarrow> w | Some row \<Rightarrow> handleParsedRow_worker w row)
      in if hasErrors then w1\<lparr> totalErrors := totalErrors w1 + 1 \<rparr> else w1)"

definition complete_worker :: "Worker \<Rightarrow> Worker" where
  "complete_worker w =
     (let w1 = sendChunk w
      in w1\<lparr> posted := posted w1
                 @ [COMPLETE (totalParsed w1) (totalSkipped w1) (totalErrors w1)] \<rparr>)"

definition error_worker :: "Worker \<Rightarrow> string \<Rightarrow> Worker" where
  "error_worker w msg = w\<lparr> posted := posted w @ [ERROR msg] \<rparr>"

text \<open>
  The message \<^verbatim>\<open>PARSE_START\<close>: the state is reset and the filter is set up; an invalid
  bound throws (\<open>Inl\<close>) and the parser is not started.
\<close>

definition parseStart :: "Worker \<Rightarrow> string \<Rightarrow> string \<Rightarrow> string + Worker" where
  "parseStart w earliestStr latestStr =
     (case createDateRangeFilter earliestStr latestStr of
        Inl msg \<Rightarrow> Inl msg
      | Inr r \<Rightarrow>
          Inr (w\<lparr> wk_currentBatch := [], totalParsed := 0, totalSkipped := 0, totalErrors := 0,
                  wk_dateRange := r \<rparr>))"

text \<open>The rows of the file, each with its error flag, and then the end of the input.\<close>

definition parseCSV :: "Worker \<Rightarrow> (RawRecord \<times> bool) list \<Rightarrow> Worker" where
  "parseCSV w rows =
     complete_worker (foldl (\<lambda>w' (row, hasErrors). step_worker w' (Some row) hasErrors) w rows)"

text \<open>The manager of the worker-based version.\<close>

datatype ProgressStatus =
  StatusIdle | StatusParsing | StatusUploading | StatusCompleted | StatusFailed

record ImportProgress =
  progress_status :: ProgressStatus
  parsedRows :: nat
  skippedRows :: nat
  progress_importedEvents :: nat
  errors :: nat

text \<open>
  The fields of the class, and what it does to its surroundings: \<open>v1_inFlight\<close>, the
  bodies of the requests whose \<^verbatim>\<open>fetch\<close> has been called and has not settled;
  \<open>v1_completions\<close> and \<open>v1_notified\<close>, the calls of the two callbacks. \<open>worker\<close> tells
  whether \<^verbatim>\<open>this.worker\<close> is set.
\<close>

record ManagerV1 =
  worker :: bool
  progress :: ImportProgress
  hasOnProgress :: bool
  v1_hasOnComplete :: bool
  v1_uploadInProgress :: bool
  v1_parsingComplete :: bool
  v1_inFlight :: "UmamiEvent list list"
  v1_completions :: "(bool \<times> string) list"
  v1_notified :: "ImportProgress list"

definition notifyProgress :: "ManagerV1 \<Rightarrow> ManagerV1" where
  "notifyProgress m =
     (if hasOnProgress m then m\<lparr> v1_notified := v1_notified m @ [progress m] \<rparr> else m)"

definition onComplete_v1 :: "ManagerV1 \<Rightarrow> bool \<Rightarrow> string \<Rightarrow> ManagerV1" where
  "onComplete_v1 m ok msg =
     (if v1_hasOnComplete m then m\<lparr> v1_completions := v1_completions m @ [(ok, msg)] \<rparr> else m)"

definition terminate_v1 :: "ManagerV1 \<Rightarrow> ManagerV1" where
  "terminate_v1 m = (if worker m then m\<lparr> worker := False \<rparr> else m)"

definition checkCompletion_v1 :: "ManagerV1 \<Rightarrow> ManagerV1" where
  "checkCompletion_v1 m =
     (if v1_parsingComplete m \<and> \<not> v1_uploadInProgress m then
        (let m1 = notifyProgress (m\<lparr> progress := (progress m)\<lparr> progress_status := StatusCompleted \<rparr> \<rparr>)
         in terminate_v1
              (onComplete_v1 m1 True
                 (''Import completed successfully: ''
                    @ showNat (progress_importedEvents (progress m1)) @ '' events imported'')))
      else m)"

text \<open>\<^verbatim>\<open>uploadBatch\<close> to its first \<^verbatim>\<open>await\<close>, and the rest of it.\<close>

definition uploadBatch_v1 :: "ManagerV1 \<Rightarrow> UmamiEvent list \<Rightarrow> ManagerV1" where
  "uploadBatch_v1 m evs =
     m\<lparr> v1_uploadInProgress := True, v1_inFlight := v1_inFlight m @ [evs] \<rparr>"

definition uploadFailed_v1 :: "ManagerV1 \<Rightarrow> string \<Rightarrow> ManagerV1" where
  "uploadFailed_v1 m msg =
     (let m1 = notifyProgress
                 (m\<lparr> progress := (progress m)\<lparr> progress_status := StatusFailed,
                                                errors := errors (progress m) + 1 \<rparr> \<rparr>)
      in (terminate_v1 (onComplete_v1 m1 False (''Upload failed: '' @ msg)))
           \<lparr> v1_uploadInProgress := False \<rparr>)"

definition uploadBatch_v1_resume :: "ManagerV1 \<Rightarrow> UmamiEvent list \<Rightarrow> FetchOutcome \<Rightarrow> ManagerV1" where
  "uploadBatch_v1_resume m evs outcome =
     (case outcome of
        NetworkError msg \<Rightarrow> uploadFailed_v1 m msg
      | HttpResponse r \<Rightarrow>
          if \<not> response_ok r then
            uploadFailed_v1 m (orDefault (error r) (''HTTP '' @ showNat (statusCode r)))
          else
            (let n = (case importedCount r of None \<Rightarrow> length evs | Some c \<Rightarrow> c);
                 m1 = notifyProgress
                        (m\<lparr> progress := (progress m)\<lparr> progress_importedEvents :=
                                              progress_importedEvents (progress m) + n \<rparr> \<rparr>)
             in checkCompletion_v1 (m1\<lparr> v1_uploadInProgress := False \<rparr>)))"

definition handleWorkerMessage :: "ManagerV1 \<Rightarrow> WorkerMessageToMain \<Rightarrow> ManagerV1" where
  "handleWorkerMessage m msg =
     (case msg of
        CHUNK_READY evs parsed skipped errs \<Rightarrow>
          uploadBatch_v1
            (notifyProgress
               (m\<lparr> progress := (progress m)\<lparr> parsedRows := parsed, skippedRows := skipped,
                                              errors := errs,
                                              progress_status := StatusUploading \<rparr> \<rparr>))
            evs
      | COMPLETE parsed skipped errs \<Rightarrow>
          checkCompletion_v1
            (notifyProgress
               (m\<lparr> v1_parsingComplete := True,
                    progress := (progress m)\<lparr> parsedRows := parsed, skippedRows := skipped,
                                              errors := errs \<rparr> \<rparr>))
      | ERROR text \<Rightarrow>
          onComplete_v1
            (notifyProgress
               (m\<lparr> progress := (progress m)\<lparr> progress_status := StatusFailed,
                                              errors := errors (progress m) + 1 \<rparr> \<rparr>))
            False text)"

text \<open>\<^verbatim>\<open>startImport\<close> of this manager, up to the message \<^verbatim>\<open>PARSE_START\<close>.\<close>

definition startImport_v1 :: "bool \<Rightarrow> bool \<Rightarrow> ManagerV1" where
  "startImport_v1 onProgressGiven onCompleteGiven =
     notifyProgress
       \<lparr> worker = True,
         progress = \<lparr> progress_status = StatusParsing, parsedRows = 0, skippedRows = 0,
                      progress_importedEvents = 0, errors = 0 \<rparr>,
         hasOnProgress = onProgressGiven, v1_hasOnComplete = onCompleteGiven,
         v1_uploadInProgress = False, v1_parsingComplete = False, v1_inFlight = [],
         v1_completions = [], v1_notified = [] \<rparr>"

text \<open>A new worker.\<close>

definition newWorker :: Worker where
  "newWorker =
     \<lparr> wk_currentBatch = [], totalParsed = 0, totalSkipped = 0, totalErrors = 0,
       wk_dateRange = \<lparr> earliestAllowedDate = None, latestAllowedDate = None \<rparr>, posted = [] \<rparr>"

subsection \<open>The import session registry\<close>

datatype ImportStatus = Pending | Processing | Completed | Failed

text \<open>A row of the table \<^verbatim>\<open>importStatus\<close>, as far as the handler reads and writes it.\<close>

record ImportSession =
  importId :: string
  siteId :: int
  status :: ImportStatus
  platform :: "string option"
  importedEvents :: nat
  errorMessage :: "string option"

text \<open>
  The persistent state the handler touches: the table \<^verbatim>\<open>importStatus\<close> by \<^verbatim>\<open>importId\<close>,
  the organization of each site (table \<^verbatim>\<open>sites\<close>), and the rows of the ClickHouse
  table \<^verbatim>\<open>events\<close>.
\<close>

record 'row Database =
  importStatus :: "string \<rightharpoonup> ImportSession"
  sites :: "int \<rightharpoonup> string"
  clickhouse_events :: "'row list"

text \<open>
  Modelled from the spec: \<^verbatim>\<open>getImportById\<close>, \<^verbatim>\<open>updateImportStatus\<close> and
  \<^verbatim>\<open>updateImportProgress\<close> of \<^verbatim>\<open>services/import/importStatusManager.js\<close>, which is
  not among the sources. The spec has one durable record per import, a status that the
  handler sets, an error message "set on completion (with caveats) or failure", and a
  counter "incremented by each accepted batch's size". An update of an \<^verbatim>\<open>importId\<close> that
  has no row changes nothing.
\<close>

definition getImportById :: "'row Database \<Rightarrow> string \<Rightarrow> ImportSession option" where
  "getImportById db iid = importStatus db iid"

definition updateImportStatus ::
  "'row Database \<Rightarrow> string \<Rightarrow> ImportStatus \<Rightarrow> string option \<Rightarrow> 'row Database" where
  "updateImportStatus db iid st msg =
     (case importStatus db iid of
        None \<Rightarrow> db
      | Some r \<Rightarrow>
          db\<lparr> importStatus := (importStatus db)(iid \<mapsto>
                r\<lparr> status := st,
                   errorMessage := (case msg of None \<Rightarrow> errorMessage r | Some t \<Rightarrow> Some t) \<rparr>) \<rparr>)"

definition updateImportProgress :: "'row Database \<Rightarrow> string \<Rightarrow> nat \<Rightarrow> 'row Database" where
  "updateImportProgress db iid n =
     (case importStatus db iid of
        None \<Rightarrow> db
      | Some r \<Rightarrow>
          db\<lparr> importStatus := (importStatus db)(iid \<mapsto>
                r\<lparr> importedEvents := importedEvents r + n \<rparr>) \<rparr>)"

text \<open>
  \<^verbatim>\<open>db.update(importStatus).set({ platform: detectedPlatform }).where(eq(importStatus.importId, importId))\<close>
\<close>

definition setPlatform :: "'row Database \<Rightarrow> string \<Rightarrow> string \<Rightarrow> 'row Database" where
  "setPlatform db iid p =
     (case importStatus db iid of
        None \<Rightarrow> db
      | Some r \<Rightarrow> db\<lparr> importStatus := (importStatus db)(iid \<mapsto> r\<lparr> platform := Some p \<rparr>) \<rparr>)"

subsection \<open>The batch ingestion handler (batchImportEvents)\<close>

text \<open>What a \<^verbatim>\<open>throw\<close> carries: an \<^verbatim>\<open>Error\<close> with its message, or some other value.\<close>

datatype Thrown = ErrorObject string | OtherValue

text \<open>
  What the handler calls and the sources do not hold, taken as parameters of one request:
  the answer of \<^verbatim>\<open>getUserHasAdminAccessToSite\<close>; the zod schema
  \<^verbatim>\<open>UmamiImportMapper.umamiEventKeyOnlySchema\<close> (\<open>None\<close> when \<^verbatim>\<open>safeParse\<close> fails, else the
  parsed data); zod's \<^verbatim>\<open>uuid()\<close> check; JavaScript's \<^verbatim>\<open>Number\<close> on the path parameter
  (\<open>None\<close> for NaN and for a number that is no integer); the quota tracker
  (\<^verbatim>\<open>ImportQuotaTracker.create\<close>, which may throw, \<^verbatim>\<open>canImportEvent\<close>, which answers and
  changes the tracker, and \<^verbatim>\<open>getSummary\<close>, which gives \<^verbatim>\<open>monthsAtCapacity\<close> and
  \<^verbatim>\<open>totalMonthsInWindow\<close>); \<^verbatim>\<open>UmamiImportMapper.transform\<close>; and whether
  \<^verbatim>\<open>clickhouse.insert\<close> throws on the rows it is given.

  The reads and writes of Postgres (the session row, the table \<^verbatim>\<open>sites\<close>) are taken
  to succeed, as are the authorization call, the tracker's two methods and the
  transform; the outer \<^verbatim>\<open>catch\<close>, which answers 500 "Internal server error" when one of
  them throws outside the inner \<^verbatim>\<open>try\<close>, is not part of the model.
\<close>

record ('q, 'row) Env =
  userHasAdminAccess :: bool
  umamiEventKeyOnlySchema :: "UmamiEvent \<Rightarrow> UmamiEvent option"
  isUuid :: "string \<Rightarrow> bool"
  jsNumber :: "string \<Rightarrow> int option"
  quotaTracker_create :: "string \<Rightarrow> Thrown + 'q"
  canImportEvent :: "'q \<Rightarrow> string \<Rightarrow> bool \<times> 'q"
  getSummary :: "'q \<Rightarrow> nat \<times> nat"
  transform :: "UmamiEvent list \<Rightarrow> string \<Rightarrow> string \<Rightarrow> 'row list"
  insertThrows :: "'row list \<Rightarrow> Thrown option"

definition errorReply :: "nat \<Rightarrow> string \<Rightarrow> BatchImportResponse" where
  "errorReply code msg =
     \<lparr> statusCode = code, success = None, importedCount = None, resp_quotaExceeded = None,
       message = None, error = Some msg \<rparr>"

text \<open>
  \<^verbatim>\<open>batchImportRequestSchema.safeParse\<close>: \<open>None\<close> on failure, else the parsed events
  (\<^verbatim>\<open>parsed.data.body.events\<close>).
\<close>

definition validateRequest :: "('q, 'row) Env \<Rightarrow> BatchImportRequest \<Rightarrow> UmamiEvent list option" where
  "validateRequest env req =
     (if length (param_site req) \<ge> 1 \<and> isUuid env (param_importId req)
         \<and> length (events req) \<ge> 1 \<and> length (events req) \<le> 10000
      then those (map (umamiEventKeyOnlySchema env) (events req))
      else None)"

text \<open>
  The loop over the events: one without \<^verbatim>\<open>created_at\<close> is passed over; the tracker
  decides on the others.
\<close>

fun quotaLoop ::
  "('q, 'row) Env \<Rightarrow> UmamiEvent list \<Rightarrow> 'q \<Rightarrow> UmamiEvent list \<Rightarrow> nat
     \<Rightarrow> UmamiEvent list \<times> nat \<times> 'q" where
  "quotaLoop env [] q eventsWithinQuota skippedDueToQuota =
     (eventsWithinQuota, skippedDueToQuota, q)"
| "quotaLoop env (event # rest) q eventsWithinQuota skippedDueToQuota =
     (if created_at event = [] then quotaLoop env rest q eventsWithinQuota skippedDueToQuota
      else (case canImportEvent env q (created_at event) of
              (True, q') \<Rightarrow> quotaLoop env rest q' (eventsWithinQuota @ [event]) skippedDueToQuota
            | (False, q') \<Rightarrow> quotaLoop env rest q' eventsWithinQuota (Suc skippedDueToQuota)))"

definition quotaMessage :: "nat \<Rightarrow> nat \<times> nat \<Rightarrow> string" where
  "quotaMessage n summary =
     (case summary of (monthsAtCapacity, totalMonthsInWindow) \<Rightarrow>
        ''All '' @ showNat n @ '' events exceeded monthly quotas or fell outside the ''
          @ showNat totalMonthsInWindow @ ''-month historical window. ''
          @ showNat monthsAtCapacity @ '' of '' @ showNat totalMonthsInWindow
          @ '' months are at full capacity.'')"

text \<open>
  The inner \<^verbatim>\<open>try\<close> block, in three parts. Each gives \<open>Inl\<close> what it throws together
  with the state at the throw, or \<open>Inr\<close> the reply it sends and the state then.

  First part (\<open>ingest\<close>): the tracker is created and the loop runs.
  Second part (\<open>nothingAdmitted\<close>): the branch \<^verbatim>\<open>eventsWithinQuota.length === 0\<close>.
  Third part (\<open>storeEvents\<close>): transform, insert, progress, finalization.
\<close>

definition nothingAdmitted ::
  "('q, 'row) Env \<Rightarrow> 'row Database \<Rightarrow> string \<Rightarrow> nat \<Rightarrow> 'q \<Rightarrow> bool
     \<Rightarrow> BatchImportResponse \<times> 'row Database" where
  "nothingAdmitted env db iid n q isLast =
     (let msg = quotaMessage n (getSummary env q)
      in (\<lparr> statusCode = 200, success = Some True, importedCount = Some 0,
            resp_quotaExceeded = Some True, message = Some msg, error = None \<rparr>,
          if isLast then updateImportStatus db iid Completed (Some msg) else db))"

definition importedMessage :: "nat \<Rightarrow> nat \<Rightarrow> string" where
  "importedMessage n skippedDueToQuota =
     ''Imported '' @ showNat n @ '' events'' @
       (if skippedDueToQuota > 0
        then '' ('' @ showNat skippedDueToQuota @ '' skipped due to quota)'' else [])"

definition finalMessage :: "nat \<Rightarrow> string option" where
  "finalMessage skippedDueToQuota =
     (if skippedDueToQuota > 0
      then Some (''Import completed. '' @ showNat skippedDueToQuota
                 @ '' events were skipped due to quota limits.'')
      else None)"

text \<open>
  Modelled from the spec: what \<^verbatim>\<open>clickhouse.insert\<close> does to the table \<^verbatim>\<open>events\<close>
  (the ClickHouse client is not among the sources). The spec has the insert as "one
  atomic call to the store": when it succeeds the rows are appended, and when it throws
  the table is as it was.
\<close>

definition storeEvents ::
  "('q, 'row) Env \<Rightarrow> 'row Database \<Rightarrow> string \<Rightarrow> string \<Rightarrow> UmamiEvent list \<Rightarrow> nat \<Rightarrow> bool
     \<Rightarrow> (Thrown \<times> 'row Database) + (BatchImportResponse \<times> 'row Database)" where
  "storeEvents env db site iid eventsWithinQuota skippedDueToQuota isLast =
     (let transformedEvents = transform env eventsWithinQuota site iid
      in if length transformedEvents = 0 then
           Inr (\<lparr> statusCode = 200, success = Some True, importedCount = Some 0,
                  resp_quotaExceeded = None, message = Some ''No valid events in batch'',
                  error = None \<rparr>,
                if isLast
                then updateImportStatus db iid Completed
                       (Some ''No valid events found in the final batch'')
                else db)
         else
           (case insertThrows env transformedEvents of
              Some t \<Rightarrow> Inl (t, db)
            | None \<Rightarrow>
                (let db1 = db\<lparr> clickhouse_events := clickhouse_events db @ transformedEvents \<rparr>;
                     db2 = updateImportProgress db1 iid (length transformedEvents)
                 in Inr (\<lparr> statusCode = 200, success = Some True,
                           importedCount = Some (length transformedEvents),
                           resp_quotaExceeded = None,
                           message = Some (importedMessage (length transformedEvents)
                                             skippedDueToQuota),
                           error = None \<rparr>,
                         if isLast
                         then updateImportStatus db2 iid Completed
                                (finalMessage skippedDueToQuota)
                         else db2))))"

definition ingest ::
  "('q, 'row) Env \<Rightarrow> 'row Database \<Rightarrow> string \<Rightarrow> string \<Rightarrow> string \<Rightarrow> UmamiEvent list \<Rightarrow> bool
     \<Rightarrow> (Thrown \<times> 'row Database) + (BatchImportResponse \<times> 'row Database)" where
  "ingest env db site iid organizationId evs isLast =
     (case quotaTracker_create env organizationId of
        Inl t \<Rightarrow> Inl (t, db)
      | Inr quotaTracker \<Rightarrow>
          (case quotaLoop env evs quotaTracker [] 0 of
             (eventsWithinQuota, skippedDueToQuota, q) \<Rightarrow>
               if length eventsWithinQuota = 0
               then Inr (nothingAdmitted env db iid (length evs) q isLast)
               else storeEvents env db site iid eventsWithinQuota skippedDueToQuota isLast))"

text \<open>The inner \<^verbatim>\<open>catch (insertError)\<close>.\<close>

definition thrownMessage :: "Thrown \<Rightarrow> string" where
  "thrownMessage t = (case t of ErrorObject msg \<Rightarrow> msg | OtherValue \<Rightarrow> ''Unknown error'')"

definition insertFailed ::
  "'row Database \<Rightarrow> string \<Rightarrow> Thrown \<Rightarrow> BatchImportResponse \<times> 'row Database" where
  "insertFailed db iid t =
     (let errMsg = thrownMessage t
      in (\<lparr> statusCode = 500, success = Some False, importedCount = None,
            resp_quotaExceeded = None, message = Some errMsg,
            error = Some ''Failed to insert events'' \<rparr>,
          updateImportStatus db iid Failed (Some (''Failed to insert events: '' @ errMsg))))"

text \<open>
  Platform detection: \<open>None\<close> when the handler rejects the batch, else the platform and
  whether it has to be written. An empty string counts as no platform
  (\<^verbatim>\<open>!detectedPlatform\<close>).
\<close>

definition detectPlatform ::
  "('q, 'row) Env \<Rightarrow> ImportSession \<Rightarrow> UmamiEvent list \<Rightarrow> (string \<times> bool) option" where
  "detectPlatform env importRecord evs =
     (case platform importRecord of
        Some p \<Rightarrow>
          (if p = [] then
             (case evs of
                [] \<Rightarrow> None
              | firstEvent # _ \<Rightarrow>
                  (case umamiEventKeyOnlySchema env firstEvent of
                     None \<Rightarrow> None | Some _ \<Rightarrow> Some (''umami'', True)))
           else Some (p, False))
      | None \<Rightarrow>
          (case evs of
             [] \<Rightarrow> None
           | firstEvent # _ \<Rightarrow>
               (case umamiEventKeyOnlySchema env firstEvent of
                  None \<Rightarrow> None | Some _ \<Rightarrow> Some (''umami'', True))))"

text \<open>
  The handler, in two parts. \<open>handleBatch\<close> is what follows the checks of the session:
  the move from pending to processing, platform detection, the lookup of the site and
  the inner \<^verbatim>\<open>try\<close> with its \<^verbatim>\<open>catch\<close>. \<open>batchImportEvents\<close> is the validation, the
  authorization and the checks of the session, and then \<open>handleBatch\<close>.
\<close>

definition handleBatch ::
  "('q, 'row) Env \<Rightarrow> 'row Database \<Rightarrow> string \<Rightarrow> string \<Rightarrow> bool \<Rightarrow> UmamiEvent list
     \<Rightarrow> ImportSession \<Rightarrow> BatchImportResponse \<times> 'row Database" where
  "handleBatch env db site iid isLast evs importRecord =
     (let db1 = (if status importRecord = Pending
                 then updateImportStatus db iid Processing None else db)
      in case detectPlatform env importRecord evs of
           None \<Rightarrow> (errorReply 400 ''Unable to detect platform from event structure'', db1)
         | Some (detectedPlatform, write) \<Rightarrow>
             (let db2 = (if write then setPlatform db1 iid detectedPlatform else db1)
              in case sites db2 (siteId importRecord) of
                   None \<Rightarrow> (errorReply 404 ''Site not found'', db2)
                 | Some organizationId \<Rightarrow>
                     (case ingest env db2 site iid organizationId evs isLast of
                        Inl (t, db3) \<Rightarrow> insertFailed db3 iid t
                      | Inr res \<Rightarrow> res)))"

definition batchImportEvents ::
  "('q, 'row) Env \<Rightarrow> 'row Database \<Rightarrow> BatchImportRequest
     \<Rightarrow> BatchImportResponse \<times> 'row Database" where
  "batchImportEvents env db req =
     (case validateRequest env req of
        None \<Rightarrow> (errorReply 400 ''Validation error'', db)
      | Some evs \<Rightarrow>
          (let site = param_site req; iid = param_importId req;
               isLast = (isLastBatch req = Some True)
           in if \<not> userHasAdminAccess env then (errorReply 403 ''Forbidden'', db)
              else
                (case getImportById db iid of
                   None \<Rightarrow> (errorReply 404 ''Import not found'', db)
                 | Some importRecord \<Rightarrow>
                     if jsNumber env site \<noteq> Some (siteId importRecord)
                       then (errorReply 400 ''Import does not belong to this site'', db)
                     else if status importRecord = Completed
                       then (errorReply 400 ''Import already completed'', db)
                     else if status importRecord = Failed
                       then (errorReply 400 ''Import has failed'', db)
                     else handleBatch env db site iid isLast evs importRecord)))"

subsection \<open>Rows, events and batches\<close>

text \<open>The events of the parser that the coordinator takes into a batch.\<close>

definition accepted :: "DateRange \<Rightarrow> RawRecord \<Rightarrow> bool" where
  "accepted r row =
     (created_at (toUmamiEvent row) \<noteq> [] \<and> isDateInRange r (created_at (toUmamiEvent row)))"

text \<open>
  An event that leaves the import running: a row that is accepted, or a reply to a
  pending fetch that is a success and does not carry \<^verbatim>\<open>quotaExceeded\<close>.
\<close>

definition benign :: "DateRange \<Rightarrow> Event \<Rightarrow> bool" where
  "benign r ev =
     (case ev of
        Step (Some row) \<Rightarrow> accepted r row
      | FetchSettled i (HttpResponse resp) \<Rightarrow> response_ok resp \<and> resp_quotaExceeded resp \<noteq> Some True
      | _ \<Rightarrow> False)"

text \<open>The rows of a sequence of events, in order.\<close>

fun rowsOf :: "Event list \<Rightarrow> RawRecord list" where
  "rowsOf [] = []"
| "rowsOf (Step (Some row) # evs) = row # rowsOf evs"
| "rowsOf (_ # evs) = rowsOf evs"

text \<open>
  A list cut into batches of \<open>BATCH_SIZE\<close>: the full batches, in order, and what is left
  over after them.
\<close>

definition fullBatches :: "'a list \<Rightarrow> 'a list list" where
  "fullBatches xs =
     map (\<lambda>i. take BATCH_SIZE (drop (i * BATCH_SIZE) xs)) [0..<length xs div BATCH_SIZE]"

definition partialBatch :: "'a list \<Rightarrow> 'a list" where
  "partialBatch xs = drop ((length xs div BATCH_SIZE) * BATCH_SIZE) xs"

subsection \<open>Sample data\<close>

text \<open>Concrete inputs, at which the theorems below are instantiated.\<close>

definition sampleImportId :: string where
  "sampleImportId = ''123e4567-e89b-42d3-a456-426614174000''"

text \<open>
  The check the sample environment uses for \<^verbatim>\<open>z.string().uuid()\<close>: 36 characters, hyphens
  at positions 8, 13, 18 and 23, hexadecimal digits elsewhere, the version digit 1 to 8
  and the variant digit 8, 9, a or b.
\<close>

definition isHexDigit :: "char \<Rightarrow> bool" where
  "isHexDigit c =
     (let n = (of_char c :: nat)
      in (48 \<le> n \<and> n \<le> 57) \<or> (97 \<le> n \<and> n \<le> 102) \<or> (65 \<le> n \<and> n \<le> 70))"

definition uuidShape :: "string \<Rightarrow> bool" where
  "uuidShape s =
     (length s = 36
      \<and> list_all isHexDigit (take 8 s) \<and> s ! 8 = CHR ''-''
      \<and> list_all isHexDigit (take 4 (drop 9 s)) \<and> s ! 13 = CHR ''-''
      \<and> list_all isHexDigit (take 4 (drop 14 s)) \<and> s ! 18 = CHR ''-''
      \<and> list_all isHexDigit (take 4 (drop 19 s)) \<and> s ! 23 = CHR ''-''
      \<and> list_all isHexDigit (drop 24 s)
      \<and> s ! 14 \<in> set ''12345678'' \<and> s ! 19 \<in> set ''89abAB'')"

definition sampleRow :: RawRecord where
  "sampleRow = (\<lambda>k. if k = ''created_at'' then JStr ''2024-01-15 12:00:00'' else JUndefined)"

definition sampleSession :: "ImportStatus \<Rightarrow> ImportSession" where
  "sampleSession st =
     \<lparr> importId = sampleImportId, siteId = 7, status = st, platform = None, importedEvents = 0,
       errorMessage = None \<rparr>"

definition sampleDb :: "ImportStatus \<Rightarrow> UmamiEvent Database" where
  "sampleDb st =
     \<lparr> importStatus = [sampleImportId \<mapsto> sampleSession st], sites = [7 \<mapsto> ''org-1''],
       clickhouse_events = [] \<rparr>"

text \<open>
  An environment in which the caller is an administrator, the schema accepts every event
  as it is, the tracker admits every event, the transform is the identity and the insert
  succeeds.
\<close>

definition sampleEnv :: "(unit, UmamiEvent) Env" where
  "sampleEnv =
     \<lparr> userHasAdminAccess = True, umamiEventKeyOnlySchema = Some, isUuid = uuidShape,
       jsNumber = (\<lambda>s. if s = ''7'' then Some 7 else None),
       quotaTracker_create = (\<lambda>_. Inr ()), canImportEvent = (\<lambda>q _. (True, q)),
       getSummary = (\<lambda>_. (0, 12)), transform = (\<lambda>es _ _. es), insertThrows = (\<lambda>_. None) \<rparr>"

definition sampleRequest :: BatchImportRequest where
  "sampleRequest =
     \<lparr> param_site = ''7'', param_importId = sampleImportId, events = [toUmamiEvent sampleRow],
       isLastBatch = Some True \<rparr>"

text \<open>The same environment with an insert that throws.\<close>

definition failingInsertEnv :: "(unit, UmamiEvent) Env" where
  "failingInsertEnv = sampleEnv\<lparr> insertThrows := (\<lambda>_. Some (ErrorObject ''Connection refused'')) \<rparr>"

text \<open>The same environment with a tracker that admits no event.\<close>

definition exhaustedQuotaEnv :: "(unit, UmamiEvent) Env" where
  "exhaustedQuotaEnv = sampleEnv\<lparr> canImportEvent := (\<lambda>q _. (False, q)), getSummary := (\<lambda>_. (12, 12)) \<rparr>"

text \<open>The window 2024-01-01 .. 2024-01-31, as timestamps.\<close>

definition sampleRange :: DateRange where
  "sampleRange =
     \<lparr> earliestAllowedDate = Some (Instant 1704067200000),
       latestAllowedDate = Some (Instant 1706745599999) \<rparr>"

text \<open>A manager one of whose uploads is pending: one row, then the end of the input.\<close>

definition sampleManager :: Manager where
  "sampleManager =
     run (startImport (newManager True) 7 sampleImportId ''2024-01-01'' ''2024-01-31'')
       [Step (Some sampleRow), ParseComplete]"

text \<open>A request whose only event has no \<^verbatim>\<open>created_at\<close>.\<close>

definition emptyCreatedAtRequest :: BatchImportRequest where
  "emptyCreatedAtRequest = sampleRequest\<lparr> events := [toUmamiEvent (\<lambda>_. JUndefined)] \<rparr>"

text \<open>The reply of the server when the tracker admits none of one event.\<close>

definition exhaustedReply :: BatchImportResponse where
  "exhaustedReply =
     \<lparr> statusCode = 200, success = Some True, importedCount = Some 0,
       resp_quotaExceeded = Some True,
       message = Some (quotaMessage 1 (12, 12)), error = None \<rparr>"

text \<open>The reply of the server to a batch of 5000 events that it has stored.\<close>

definition storedReply :: BatchImportResponse where
  "storedReply =
     \<lparr> statusCode = 200, success = Some True, importedCount = Some 5000,
       resp_quotaExceeded = None, message = Some ''Imported 5000 events'', error = None \<rparr>"

section \<open>Properties\<close>

subsection \<open>The date-range filter\<close>

lemma sample_range:
  "createDateRangeFilter ''2024-01-01'' ''2024-01-31'' =
     Inr \<lparr> earliestAllowedDate = Some (Instant 1704067200000),
           latestAllowedDate = Some (Instant 1706745599999) \<rparr>"
  by code_simp

lemma isDateInRange_invalid:
  "\<not> isValid (fromFormat_datetime s) \<Longrightarrow> \<not> isDateInRange r s"
  by (simp add: isDateInRange_def)

text \<open>
  Claim C7. With the window 2024-01-01 .. 2024-01-31 (the earliest bound at the start of
  its day, the latest at the end of its day, UTC), the filter accepts
  "2024-01-01 00:00:00" and "2024-01-31 23:59:59" and rejects "2023-12-31 23:59:59" and
  "2024-02-01 00:00:00"; and whatever the window, a string that does not parse in the
  format yyyy-MM-dd HH:mm:ss is rejected. The filter is a total function to the
  booleans: it has no branch that throws.
\<close>

theorem date_range_filter_boundary:
  "(\<exists>r. createDateRangeFilter ''2024-01-01'' ''2024-01-31'' = Inr r
        \<and> isDateInRange r ''2024-01-01 00:00:00''
        \<and> \<not> isDateInRange r ''2023-12-31 23:59:59''
        \<and> isDateInRange r ''2024-01-31 23:59:59''
        \<and> \<not> isDateInRange r ''2024-02-01 00:00:00'')
   \<and> (\<forall>w s. \<not> isValid (fromFormat_datetime s) \<longrightarrow> isDateInRange w s = False)"
proof (intro conjI allI impI)
  let ?r = "\<lparr> earliestAllowedDate = Some (Instant 1704067200000),
              latestAllowedDate = Some (Instant 1706745599999) \<rparr>"
  have a: "isDateInRange ?r ''2024-01-01 00:00:00''" by code_simp
  have b: "\<not> isDateInRange ?r ''2023-12-31 23:59:59''" by code_simp
  have c: "isDateInRange ?r ''2024-01-31 23:59:59''" by code_simp
  have d: "\<not> isDateInRange ?r ''2024-02-01 00:00:00''" by code_simp
  from sample_range a b c d
  show "\<exists>r. createDateRangeFilter ''2024-01-01'' ''2024-01-31'' = Inr r
        \<and> isDateInRange r ''2024-01-01 00:00:00''
        \<and> \<not> isDateInRange r ''2023-12-31 23:59:59''
        \<and> isDateInRange r ''2024-01-31 23:59:59''
        \<and> \<not> isDateInRange r ''2024-02-01 00:00:00''"
    by blast
next
  fix w s
  assume "\<not> isValid (fromFormat_datetime s)"
  then show "isDateInRange w s = False"
    using isDateInRange_invalid by simp
qed

theorem date_range_filter_boundary_witness:
  "\<not> isValid (fromFormat_datetime ''15/01/2024 12:00'')
   \<and> isDateInRange sampleRange ''15/01/2024 12:00'' = False
   \<and> \<not> isValid (fromFormat_datetime ''2024-01-15T12:00:00'')
   \<and> isDateInRange sampleRange ''2024-01-15T12:00:00'' = False
   \<and> \<not> isValid (fromFormat_datetime ''2024-01-32 12:00:00'')
   \<and> isDateInRange sampleRange ''2024-01-32 12:00:00'' = False
   \<and> \<not> isValid (fromFormat_datetime [])
   \<and> isDateInRange sampleRange [] = False"
proof -
  have a: "\<not> isValid (fromFormat_datetime ''15/01/2024 12:00'')" by code_simp
  have b: "\<not> isValid (fromFormat_datetime ''2024-01-15T12:00:00'')" by code_simp
  have c: "\<not> isValid (fromFormat_datetime ''2024-01-32 12:00:00'')" by code_simp
  have d: "\<not> isValid (fromFormat_datetime [])" by code_simp
  note main = date_range_filter_boundary [THEN conjunct2, rule_format]
  from a b c d main [OF a, of sampleRange] main [OF b, of sampleRange]
    main [OF c, of sampleRange] main [OF d, of sampleRange]
  show ?thesis by (intro conjI)
qed

subsection \<open>The event mapper\<close>

lemma recognizedFields_entries: "recognizedFields = map fst (entries e)"
  by (simp add: recognizedFields_def umamiHeaders_def entries_def List.map_filter_simps)

text \<open>
  Claim C9. For every row and every recognized field: when the row holds a string in
  the field, the event holds the same string; when the field is missing from the row
  (or is undefined or null), the event holds the empty string. The mapper is a total
  function: it has no branch that fails.
\<close>

theorem mapper_preserves_fields:
  assumes "k \<in> set recognizedFields"
  shows "(raw k = JStr s \<longrightarrow> field (toUmamiEvent raw) k = Some s)
       \<and> (raw k = JUndefined \<or> raw k = JNull \<longrightarrow> field (toUmamiEvent raw) k = Some [])"
  using assms unfolding recognizedFields_def umamiHeaders_def
  apply (simp add: List.map_filter_simps)
  apply (elim disjE)
  apply (simp_all add: field_def entries_def toUmamiEvent_def js_String_def js_or_def truthy_def)
  done

theorem mapper_preserves_fields_witness:
  "''created_at'' \<in> set recognizedFields
   \<and> sampleRow ''created_at'' = JStr ''2024-01-15 12:00:00''
   \<and> field (toUmamiEvent sampleRow) ''created_at'' = Some ''2024-01-15 12:00:00''
   \<and> ''hostname'' \<in> set recognizedFields
   \<and> sampleRow ''hostname'' = JUndefined
   \<and> field (toUmamiEvent sampleRow) ''hostname'' = Some []"
proof -
  have a: "''created_at'' \<in> set recognizedFields"
    by (simp add: recognizedFields_def umamiHeaders_def List.map_filter_simps)
  have b: "''hostname'' \<in> set recognizedFields"
    by (simp add: recognizedFields_def umamiHeaders_def List.map_filter_simps)
  have c: "sampleRow ''created_at'' = JStr ''2024-01-15 12:00:00''"
    by (simp add: sampleRow_def)
  have d: "sampleRow ''hostname'' = JUndefined"
    by (simp add: sampleRow_def)
  from mapper_preserves_fields [OF a, of sampleRow "''2024-01-15 12:00:00''"] c
  have e: "field (toUmamiEvent sampleRow) ''created_at'' = Some ''2024-01-15 12:00:00''"
    by blast
  from mapper_preserves_fields [OF b, of sampleRow] d
  have f: "field (toUmamiEvent sampleRow) ''hostname'' = Some []"
    by blast
  from a b c d e f show ?thesis by blast
qed


subsection \<open>The upload coordinator\<close>

lemma run_Nil: "run m [] = m"
  by (simp add: run_def)

lemma run_Cons: "run m (ev # evs) = run (dispatch m ev) evs"
  by (simp add: run_def)

lemma run_append: "run m (xs @ ys) = run (run m xs) ys"
  by (simp add: run_def)

lemma run_snoc: "run m (xs @ [ev]) = dispatch (run m xs) ev"
  by (simp add: run_def)

lemma onComplete_fields:
  "aborted (onComplete m ok msg) = aborted m
   \<and> quotaExceeded (onComplete m ok msg) = quotaExceeded m
   \<and> parsingComplete (onComplete m ok msg) = parsingComplete m
   \<and> uploadInProgress (onComplete m ok msg) = uploadInProgress m
   \<and> currentBatch (onComplete m ok msg) = currentBatch m
   \<and> sent (onComplete m ok msg) = sent m
   \<and> inFlight (onComplete m ok msg) = inFlight m
   \<and> dateRange (onComplete m ok msg) = dateRange m
   \<and> mgr_siteId (onComplete m ok msg) = mgr_siteId m
   \<and> mgr_importId (onComplete m ok msg) = mgr_importId m
   \<and> hasOnComplete (onComplete m ok msg) = hasOnComplete m"
  by (simp add: onComplete_def)

lemma onComplete_completions:
  "completions (onComplete m ok msg)
     = (if hasOnComplete m then completions m @ [(ok, msg)] else completions m)"
  by (simp add: onComplete_def)

text \<open>What the coordinator does with a successful reply that carries \<^verbatim>\<open>quotaExceeded\<close>.\<close>

lemma quota_reply_received:
  assumes "i < length (inFlight m)" and "response_ok r" and "resp_quotaExceeded r = Some True"
  shows "quotaExceeded (dispatch m (FetchSettled i (HttpResponse r)))
       \<and> aborted (dispatch m (FetchSettled i (HttpResponse r)))
       \<and> completions (dispatch m (FetchSettled i (HttpResponse r)))
           = (if hasOnComplete m
              then completions m @ [(True, orDefault (message r) ''Import completed with quota limits'')]
              else completions m)
       \<and> sent (dispatch m (FetchSettled i (HttpResponse r))) = sent m
       \<and> currentBatch (dispatch m (FetchSettled i (HttpResponse r))) = currentBatch m"
  using assms
  by (simp add: dispatch_def uploadBatch_resume_def onComplete_fields onComplete_completions)

text \<open>Once \<^verbatim>\<open>quotaExceeded\<close> and \<^verbatim>\<open>aborted\<close> are set, no event starts an upload or
  adds a row to the batch, and both flags stay set.\<close>

lemma stopped_dispatch:
  assumes "quotaExceeded m" and "aborted m"
  shows "quotaExceeded (dispatch m ev) \<and> aborted (dispatch m ev)
       \<and> sent (dispatch m ev) = sent m \<and> currentBatch (dispatch m ev) = currentBatch m"
proof (cases ev)
  case (FetchSettled i outcome)
  show ?thesis
  proof (cases outcome)
    case (NetworkError msg)
    with FetchSettled assms show ?thesis
      by (simp add: dispatch_def uploadBatch_resume_def uploadFailed_def terminate_def
            onComplete_fields)
  next
    case (HttpResponse r)
    with FetchSettled assms show ?thesis
      by (simp add: dispatch_def uploadBatch_resume_def uploadFailed_def terminate_def
            checkCompletion_def onComplete_fields)
  qed
qed (use assms in \<open>simp_all add: dispatch_def terminate_def\<close>)

lemma stopped_run:
  assumes "quotaExceeded m" and "aborted m"
  shows "quotaExceeded (run m evs) \<and> aborted (run m evs)
       \<and> sent (run m evs) = sent m \<and> currentBatch (run m evs) = currentBatch m"
  using assms
proof (induction evs arbitrary: m)
  case Nil
  then show ?case by (simp add: run_Nil)
next
  case (Cons ev evs)
  from stopped_dispatch [OF Cons.prems]
  have d: "quotaExceeded (dispatch m ev)" "aborted (dispatch m ev)"
    "sent (dispatch m ev) = sent m" "currentBatch (dispatch m ev) = currentBatch m"
    by simp_all
  from Cons.IH [OF d(1) d(2)] d(3) d(4) show ?case
    by (simp add: run_Cons)
qed

lemma BATCH_SIZE_pos: "0 < BATCH_SIZE"
  by (simp add: BATCH_SIZE_def)

lemma length_partialBatch: "length (partialBatch xs) = length xs mod BATCH_SIZE"
  by (simp add: partialBatch_def minus_div_mult_eq_mod)

lemma partialBatch_snoc:
  "partialBatch (xs @ [x]) =
     (if Suc (length xs) mod BATCH_SIZE = 0 then [] else partialBatch xs @ [x])"
proof (cases "Suc (length xs) mod BATCH_SIZE = 0")
  case True
  then have "Suc (length xs) div BATCH_SIZE * BATCH_SIZE = Suc (length xs)"
    by (metis div_mult_mod_eq add.right_neutral)
  then show ?thesis using True by (simp add: partialBatch_def)
next
  case False
  then have d: "Suc (length xs) div BATCH_SIZE = length xs div BATCH_SIZE"
    by (simp add: div_Suc)
  have "length xs div BATCH_SIZE * BATCH_SIZE \<le> length xs"
    by simp
  with d False show ?thesis by (simp add: partialBatch_def)
qed

lemma full_batch_unchanged:
  assumes "i < length xs div BATCH_SIZE"
  shows "take BATCH_SIZE (drop (i * BATCH_SIZE) (xs @ [x]))
           = take BATCH_SIZE (drop (i * BATCH_SIZE) xs)"
proof -
  from assms have "Suc i \<le> length xs div BATCH_SIZE" by simp
  then have "Suc i * BATCH_SIZE \<le> length xs div BATCH_SIZE * BATCH_SIZE"
    by (rule mult_le_mono1)
  also have "\<dots> \<le> length xs" by simp
  finally have le: "i * BATCH_SIZE + BATCH_SIZE \<le> length xs" by simp
  then show ?thesis by simp
qed

lemma fullBatches_snoc:
  "fullBatches (xs @ [x]) =
     (if Suc (length xs) mod BATCH_SIZE = 0
      then fullBatches xs @ [partialBatch xs @ [x]] else fullBatches xs)"
proof -
  have same: "map (\<lambda>i. take BATCH_SIZE (drop (i * BATCH_SIZE) (xs @ [x])))
                 [0..<length xs div BATCH_SIZE] = fullBatches xs"
    unfolding fullBatches_def
  proof (rule map_cong [OF refl])
    fix i
    assume "i \<in> set [0..<length xs div BATCH_SIZE]"
    then have "i < length xs div BATCH_SIZE" by simp
    then show "take BATCH_SIZE (drop (i * BATCH_SIZE) (xs @ [x]))
                 = take BATCH_SIZE (drop (i * BATCH_SIZE) xs)"
      by (rule full_batch_unchanged)
  qed
  show ?thesis
  proof (cases "Suc (length xs) mod BATCH_SIZE = 0")
    case True
    then have d: "Suc (length xs) div BATCH_SIZE = Suc (length xs div BATCH_SIZE)"
      by (simp add: div_Suc)
    have le: "length xs div BATCH_SIZE * BATCH_SIZE \<le> length xs" by simp
    have "length (partialBatch xs @ [x]) = Suc (length xs mod BATCH_SIZE)"
      by (simp add: length_partialBatch)
    also have "\<dots> = BATCH_SIZE"
      using True BATCH_SIZE_pos by (metis mod_Suc nat.distinct(1))
    finally have len: "length (partialBatch xs @ [x]) = BATCH_SIZE" .
    have "take BATCH_SIZE (drop (length xs div BATCH_SIZE * BATCH_SIZE) (xs @ [x]))
            = partialBatch xs @ [x]"
      using le len by (simp add: partialBatch_def)
    with d same True show ?thesis
      by (simp add: fullBatches_def)
  next
    case False
    then have "Suc (length xs) div BATCH_SIZE = length xs div BATCH_SIZE"
      by (simp add: div_Suc)
    with same False show ?thesis by (simp add: fullBatches_def)
  qed
qed

lemma rowsOf_snoc:
  "rowsOf (evs @ [ev]) = rowsOf evs @ (case ev of Step (Some row) \<Rightarrow> [row] | _ \<Rightarrow> [])"
  by (induction evs rule: rowsOf.induct) (auto split: Event.splits option.splits)

text \<open>The coordinator's handling of a row that passes the two checks.\<close>

lemma handleParsedRow_accepted:
  assumes "accepted (dateRange m) row" and "\<not> quotaExceeded m"
  shows "handleParsedRow m row =
           (if BATCH_SIZE \<le> Suc (length (currentBatch m))
            then m\<lparr> currentBatch := [], uploadInProgress := True,
                    inFlight := inFlight m
                      @ [requestFor m (currentBatch m @ [toUmamiEvent row]) False],
                    sent := sent m
                      @ [requestFor m (currentBatch m @ [toUmamiEvent row]) False] \<rparr>
            else m\<lparr> currentBatch := currentBatch m @ [toUmamiEvent row] \<rparr>)"
  using assms
  by (simp add: handleParsedRow_def accepted_def Let_def sendBatch_def uploadBatch_def
        requestFor_def)

text \<open>A successful reply without \<^verbatim>\<open>quotaExceeded\<close>, while the parser is still running.\<close>

lemma benign_reply_received:
  assumes "response_ok r" and "resp_quotaExceeded r \<noteq> Some True" and "\<not> parsingComplete m"
  shows "dispatch m (FetchSettled i (HttpResponse r)) =
           (if i < length (inFlight m)
            then m\<lparr> inFlight := take i (inFlight m) @ drop (Suc i) (inFlight m),
                    uploadInProgress := False \<rparr>
            else m)"
  using assms
  by (simp add: dispatch_def uploadBatch_resume_def checkCompletion_def)

lemma batch_full_iff:
  "BATCH_SIZE \<le> Suc (n mod BATCH_SIZE) \<longleftrightarrow> Suc n mod BATCH_SIZE = 0"
proof -
  have "n mod BATCH_SIZE < BATCH_SIZE" using BATCH_SIZE_pos by simp
  then show ?thesis by (auto simp: mod_Suc)
qed

lemma requestFor_cong:
  "mgr_siteId m = mgr_siteId m0 \<Longrightarrow> mgr_importId m = mgr_importId m0
     \<Longrightarrow> requestFor m b l = requestFor m0 b l"
  by (simp add: requestFor_def)

text \<open>
  While the import is running (rows that are accepted, replies that are successes
  without \<^verbatim>\<open>quotaExceeded\<close>, in any order), the requests sent are the full batches of
  the rows so far, none of them flagged as last, and the batch held is what is left over.
\<close>

lemma batching_invariant:
  assumes "\<not> aborted m0" and "\<not> quotaExceeded m0" and "\<not> parsingComplete m0"
      and "currentBatch m0 = []" and "sent m0 = []"
      and "list_all (benign (dateRange m0)) es"
  shows "\<not> aborted (run m0 es) \<and> \<not> quotaExceeded (run m0 es) \<and> \<not> parsingComplete (run m0 es)
       \<and> dateRange (run m0 es) = dateRange m0
       \<and> mgr_siteId (run m0 es) = mgr_siteId m0 \<and> mgr_importId (run m0 es) = mgr_importId m0
       \<and> currentBatch (run m0 es) = partialBatch (map toUmamiEvent (rowsOf es))
       \<and> sent (run m0 es)
           = map (\<lambda>b. requestFor m0 b False) (fullBatches (map toUmamiEvent (rowsOf es)))"
  using assms(6)
proof (induction es rule: rev_induct)
  case Nil
  show ?case using assms(1-5)
    by (simp add: run_Nil partialBatch_def fullBatches_def)
next
  case (snoc ev es)
  let ?M = "run m0 es"
  let ?xs = "map toUmamiEvent (rowsOf es)"
  from snoc.prems have es: "list_all (benign (dateRange m0)) es" and ev: "benign (dateRange m0) ev"
    by simp_all
  from snoc.IH [OF es]
  have ih: "\<not> aborted ?M" "\<not> quotaExceeded ?M" "\<not> parsingComplete ?M"
    "dateRange ?M = dateRange m0" "mgr_siteId ?M = mgr_siteId m0"
    "mgr_importId ?M = mgr_importId m0" "currentBatch ?M = partialBatch ?xs"
    "sent ?M = map (\<lambda>b. requestFor m0 b False) (fullBatches ?xs)"
    by simp_all
  show ?case
  proof (cases ev)
    case (Step data)
    with ev obtain row where data: "data = Some row" and acc: "accepted (dateRange m0) row"
      by (cases data) (simp_all add: benign_def)
    have d: "dispatch ?M ev = handleParsedRow ?M row"
      using Step data ih(1,2) by (simp add: dispatch_def)
    have rows: "map toUmamiEvent (rowsOf (es @ [ev])) = ?xs @ [toUmamiEvent row]"
      using Step data by (simp add: rowsOf_snoc)
    have len: "length (currentBatch ?M) = length ?xs mod BATCH_SIZE"
      by (simp add: ih(7) length_partialBatch)
    have h: "handleParsedRow ?M row =
           (if Suc (length ?xs) mod BATCH_SIZE = 0
            then ?M\<lparr> currentBatch := [], uploadInProgress := True,
                    inFlight := inFlight ?M
                      @ [requestFor m0 (partialBatch ?xs @ [toUmamiEvent row]) False],
                    sent := sent ?M
                      @ [requestFor m0 (partialBatch ?xs @ [toUmamiEvent row]) False] \<rparr>
            else ?M\<lparr> currentBatch := partialBatch ?xs @ [toUmamiEvent row] \<rparr>)"
      using handleParsedRow_accepted [of ?M row] acc ih(2) ih(4) len
        batch_full_iff [of "length ?xs"] requestFor_cong [OF ih(5) ih(6)] ih(7)
      by simp
    show ?thesis
      unfolding run_snoc d h rows
      using ih by (simp add: partialBatch_snoc fullBatches_snoc)
  next
    case (FetchSettled i outcome)
    with ev obtain r where r: "outcome = HttpResponse r" "response_ok r"
        "resp_quotaExceeded r \<noteq> Some True"
      by (cases outcome) (simp_all add: benign_def)
    have rows: "rowsOf (es @ [ev]) = rowsOf es"
      using FetchSettled by (simp add: rowsOf_snoc)
    show ?thesis
      unfolding run_snoc rows
      using FetchSettled r ih benign_reply_received [OF r(2) r(3) ih(3), of i]
      by simp
  next
    case ParseComplete
    with ev show ?thesis by (simp add: benign_def)
  next
    case (ParseError msg)
    with ev show ?thesis by (simp add: benign_def)
  next
    case Terminate
    with ev show ?thesis by (simp add: benign_def)
  qed
qed

text \<open>\<^verbatim>\<open>startImport\<close> with two valid bounds: a fresh manager with the window set.\<close>

lemma startImport_valid:
  assumes "createDateRangeFilter earliest latest = Inr r"
  shows "startImport (newManager cb) site iid earliest latest
           = (newManager cb)\<lparr> mgr_siteId := site, mgr_importId := iid, dateRange := r \<rparr>"
  using assms
  by (auto simp: createDateRangeFilter_def startImport_def newManager_def Let_def
           split: if_splits)

lemma started_fields:
  assumes "createDateRangeFilter earliest latest = Inr r"
  shows "\<not> aborted (startImport (newManager cb) site iid earliest latest)"
    and "\<not> quotaExceeded (startImport (newManager cb) site iid earliest latest)"
    and "\<not> parsingComplete (startImport (newManager cb) site iid earliest latest)"
    and "currentBatch (startImport (newManager cb) site iid earliest latest) = []"
    and "sent (startImport (newManager cb) site iid earliest latest) = []"
    and "inFlight (startImport (newManager cb) site iid earliest latest) = []"
    and "dateRange (startImport (newManager cb) site iid earliest latest) = r"
    and "mgr_siteId (startImport (newManager cb) site iid earliest latest) = site"
    and "mgr_importId (startImport (newManager cb) site iid earliest latest) = iid"
    and "hasOnComplete (startImport (newManager cb) site iid earliest latest) = cb"
    and "completions (startImport (newManager cb) site iid earliest latest) = []"
  unfolding startImport_valid [OF assms] by (simp_all add: newManager_def)

lemma upt_two: "[0..<2] = [0, Suc 0]"
  by (simp add: numeral_2_eq_2)

lemma fullBatches_12001:
  assumes "length xs = 12001"
  shows "fullBatches xs = [take 5000 xs, take 5000 (drop 5000 xs)]"
    and "partialBatch xs = drop 10000 xs"
proof -
  have d: "length xs div BATCH_SIZE = 2"
    by (simp add: assms BATCH_SIZE_def)
  show "fullBatches xs = [take 5000 xs, take 5000 (drop 5000 xs)]"
    unfolding fullBatches_def d upt_two by (simp add: BATCH_SIZE_def)
  show "partialBatch xs = drop 10000 xs"
    unfolding partialBatch_def d by (simp add: BATCH_SIZE_def)
qed

text \<open>The end of the input when the batch held is not empty and nothing has stopped the
  import: the batch is sent, flagged as the last one.\<close>

lemma handleParseComplete_sends_rest:
  assumes "\<not> quotaExceeded m" and "currentBatch m \<noteq> []"
  shows "sent (handleParseComplete m) = sent m @ [requestFor m (currentBatch m) True]"
  using assms
  by (simp add: handleParseComplete_def sendBatch_def uploadBatch_def Let_def requestFor_def)

text \<open>
  Claim C8. After \<^verbatim>\<open>startImport\<close> with a valid window, let 12001 rows that pass the
  filter go through the coordinator, with successful replies (none carrying
  \<^verbatim>\<open>quotaExceeded\<close>) arriving at any points in between, and then the end of the input.
  Exactly three requests are sent: the first 5000 events, the next 5000 events and the
  last 2001 events, in this order, and only the third is flagged \<^verbatim>\<open>isLastBatch\<close>.
\<close>

theorem batching_12001_rows:
  assumes "createDateRangeFilter earliest latest = Inr r"
      and "list_all (benign r) es"
      and "length (rowsOf es) = 12001"
  shows "sent (run (startImport (newManager cb) site iid earliest latest) (es @ [ParseComplete]))
           = [\<lparr> param_site = showInt site, param_importId = iid,
                events = take 5000 (map toUmamiEvent (rowsOf es)), isLastBatch = Some False \<rparr>,
              \<lparr> param_site = showInt site, param_importId = iid,
                events = take 5000 (drop 5000 (map toUmamiEvent (rowsOf es))),
                isLastBatch = Some False \<rparr>,
              \<lparr> param_site = showInt site, param_importId = iid,
                events = drop 10000 (map toUmamiEvent (rowsOf es)), isLastBatch = Some True \<rparr>]
       \<and> map (\<lambda>q. length (events q))
            (sent (run (startImport (newManager cb) site iid earliest latest)
                     (es @ [ParseComplete])))
           = [5000, 5000, 2001]"
proof -
  let ?m0 = "startImport (newManager cb) site iid earliest latest"
  let ?xs = "map toUmamiEvent (rowsOf es)"
  let ?M = "run ?m0 es"
  note st = started_fields [OF assms(1), of cb site iid]
  have len: "length ?xs = 12001" using assms(3) by simp
  from assms(2) have ben: "list_all (benign (dateRange ?m0)) es"
    by (simp add: st(7))
  from batching_invariant [OF st(1) st(2) st(3) st(4) st(5) ben]
  have inv: "\<not> aborted ?M" "\<not> quotaExceeded ?M" "mgr_siteId ?M = mgr_siteId ?m0"
    "mgr_importId ?M = mgr_importId ?m0" "currentBatch ?M = partialBatch ?xs"
    "sent ?M = map (\<lambda>b. requestFor ?m0 b False) (fullBatches ?xs)"
    by simp_all
  have cb: "currentBatch ?M = drop 10000 ?xs"
    using inv(5) fullBatches_12001(2) [OF len] by simp
  have "length (currentBatch ?M) = 2001"
    unfolding cb using len by simp
  then have ne: "currentBatch ?M \<noteq> []"
    by auto
  have "run ?m0 (es @ [ParseComplete]) = handleParseComplete ?M"
    using inv(1) by (simp add: run_snoc dispatch_def)
  then have s: "sent (run ?m0 (es @ [ParseComplete]))
           = sent ?M @ [requestFor ?M (currentBatch ?M) True]"
    using handleParseComplete_sends_rest [OF inv(2) ne] by simp
  have first: "sent (run ?m0 (es @ [ParseComplete]))
           = [\<lparr> param_site = showInt site, param_importId = iid,
                events = take 5000 ?xs, isLastBatch = Some False \<rparr>,
              \<lparr> param_site = showInt site, param_importId = iid,
                events = take 5000 (drop 5000 ?xs), isLastBatch = Some False \<rparr>,
              \<lparr> param_site = showInt site, param_importId = iid,
                events = drop 10000 ?xs, isLastBatch = Some True \<rparr>]"
    unfolding s inv(6) cb fullBatches_12001(1) [OF len]
    by (simp add: requestFor_def inv(3) inv(4) st(8) st(9))
  show ?thesis
    unfolding first using len by simp
qed

lemma sample_range_eq: "createDateRangeFilter ''2024-01-01'' ''2024-01-31'' = Inr sampleRange"
  unfolding sampleRange_def by (rule sample_range)

lemma sampleRow_created_at: "created_at (toUmamiEvent sampleRow) = ''2024-01-15 12:00:00''"
  by (simp add: toUmamiEvent_def sampleRow_def js_String_def js_or_def truthy_def)

lemma sampleRow_accepted: "accepted sampleRange sampleRow"
proof -
  have "isDateInRange sampleRange ''2024-01-15 12:00:00''" by code_simp
  then show ?thesis by (simp add: accepted_def sampleRow_created_at)
qed

lemma rowsOf_replicate: "rowsOf (replicate n (Step (Some row))) = replicate n row"
  by (induction n) simp_all

lemma list_all_replicate: "P x \<Longrightarrow> list_all P (replicate n x)"
  by (induction n) simp_all

lemma sample_rows_benign: "list_all (benign sampleRange) (replicate n (Step (Some sampleRow)))"
  by (rule list_all_replicate) (simp add: benign_def sampleRow_accepted)

theorem batching_12001_rows_witness:
  "createDateRangeFilter ''2024-01-01'' ''2024-01-31'' = Inr sampleRange
   \<and> list_all (benign sampleRange) (replicate 12001 (Step (Some sampleRow)))
   \<and> length (rowsOf (replicate 12001 (Step (Some sampleRow)))) = 12001
   \<and> map (\<lambda>q. length (events q))
        (sent (run (startImport (newManager True) 7 sampleImportId ''2024-01-01'' ''2024-01-31'')
                 (replicate 12001 (Step (Some sampleRow)) @ [ParseComplete])))
       = [5000, 5000, 2001]
   \<and> map isLastBatch
        (sent (run (startImport (newManager True) 7 sampleImportId ''2024-01-01'' ''2024-01-31'')
                 (replicate 12001 (Step (Some sampleRow)) @ [ParseComplete])))
       = [Some False, Some False, Some True]"
proof -
  have len: "length (rowsOf (replicate 12001 (Step (Some sampleRow)))) = 12001"
    by (simp only: rowsOf_replicate length_replicate)
  note main = batching_12001_rows [OF sample_range_eq sample_rows_benign len, of True 7 sampleImportId]
  from main have sizes: "map (\<lambda>q. length (events q))
        (sent (run (startImport (newManager True) 7 sampleImportId ''2024-01-01'' ''2024-01-31'')
                 (replicate 12001 (Step (Some sampleRow)) @ [ParseComplete])))
       = [5000, 5000, 2001]"
    by (rule conjunct2)
  from main have flags: "map isLastBatch
        (sent (run (startImport (newManager True) 7 sampleImportId ''2024-01-01'' ''2024-01-31'')
                 (replicate 12001 (Step (Some sampleRow)) @ [ParseComplete])))
       = [Some False, Some False, Some True]"
    by (simp only: conjunct1 [OF main] list.map BatchImportRequest.simps)
  from sample_range_eq sample_rows_benign len sizes flags show ?thesis
    by (intro conjI)
qed

text \<open>A row changes \<open>sent\<close> and \<open>inFlight\<close> in the same way: what is sent is in flight.\<close>

lemma step_sent_inFlight:
  "\<exists>new. sent (dispatch m (Step d)) = sent m @ new
        \<and> inFlight (dispatch m (Step d)) = inFlight m @ new"
  by (auto simp: dispatch_def handleParsedRow_def sendBatch_def uploadBatch_def Let_def
           split: option.splits)

lemma steps_sent_inFlight:
  "\<exists>new. sent (run m (replicate n (Step d))) = sent m @ new
        \<and> inFlight (run m (replicate n (Step d))) = inFlight m @ new"
proof (induction n arbitrary: m)
  case 0
  show ?case by (simp add: run_Nil)
next
  case (Suc n)
  from step_sent_inFlight [of m d] obtain a where
    a: "sent (dispatch m (Step d)) = sent m @ a" "inFlight (dispatch m (Step d)) = inFlight m @ a"
    by blast
  from Suc.IH [of "dispatch m (Step d)"] obtain b where
    b: "sent (run (dispatch m (Step d)) (replicate n (Step d))) = sent (dispatch m (Step d)) @ b"
       "inFlight (run (dispatch m (Step d)) (replicate n (Step d)))
          = inFlight (dispatch m (Step d)) @ b"
    by blast
  from a b show ?case by (simp add: run_Cons)
qed

lemma length_fullBatches: "length (fullBatches xs) = length xs div BATCH_SIZE"
  by (simp add: fullBatches_def)

text \<open>
  Claim C1 fails on the code. \<^verbatim>\<open>uploadBatch\<close> sets \<^verbatim>\<open>uploadInProgress\<close> and calls
  \<^verbatim>\<open>fetch\<close> whatever the flag was: nothing makes a batch wait for the upload before it.
  When 10000 rows that pass the filter are parsed before any reply arrives, two uploads
  are in flight.
\<close>

theorem two_uploads_in_flight:
  "length (inFlight (run (startImport (newManager cb) site iid ''2024-01-01'' ''2024-01-31'')
                      (replicate 10000 (Step (Some sampleRow))))) = 2"
proof -
  let ?m0 = "startImport (newManager cb) site iid ''2024-01-01'' ''2024-01-31''"
  let ?es = "replicate 10000 (Step (Some sampleRow))"
  note st = started_fields [OF sample_range_eq, of cb site iid]
  have ben: "list_all (benign (dateRange ?m0)) ?es"
    unfolding st(7) by (rule sample_rows_benign)
  from batching_invariant [OF st(1) st(2) st(3) st(4) st(5) ben]
  have "sent (run ?m0 ?es)
          = map (\<lambda>b. requestFor ?m0 b False) (fullBatches (map toUmamiEvent (rowsOf ?es)))"
    by simp
  then have "length (sent (run ?m0 ?es)) = length (map toUmamiEvent (rowsOf ?es)) div BATCH_SIZE"
    by (simp only: length_map length_fullBatches)
  also have "\<dots> = 2"
    by (simp add: rowsOf_replicate BATCH_SIZE_def)
  finally have two: "length (sent (run ?m0 ?es)) = 2" .
  from steps_sent_inFlight [of ?m0 10000 "Some sampleRow"] st(5) st(6)
  have "inFlight (run ?m0 ?es) = sent (run ?m0 ?es)" by auto
  with two show ?thesis by simp
qed

text \<open>While the import is running the callback is not called.\<close>

lemma running_no_completions:
  assumes "\<not> aborted m0" and "\<not> quotaExceeded m0" and "\<not> parsingComplete m0"
      and "currentBatch m0 = []" and "sent m0 = []"
      and "list_all (benign (dateRange m0)) es"
  shows "completions (run m0 es) = completions m0
       \<and> hasOnComplete (run m0 es) = hasOnComplete m0"
  using assms(6)
proof (induction es rule: rev_induct)
  case Nil
  show ?case by (simp add: run_Nil)
next
  case (snoc ev es)
  let ?M = "run m0 es"
  from snoc.prems have es: "list_all (benign (dateRange m0)) es" and ev: "benign (dateRange m0) ev"
    by simp_all
  from batching_invariant [OF assms(1-5) es]
  have inv: "\<not> aborted ?M" "\<not> quotaExceeded ?M" "\<not> parsingComplete ?M"
    "dateRange ?M = dateRange m0"
    by simp_all
  note ih = snoc.IH [OF es]
  show ?case
  proof (cases ev)
    case (Step data)
    with ev obtain row where data: "data = Some row" and acc: "accepted (dateRange ?M) row"
      by (cases data) (simp_all add: benign_def inv(4))
    have "dispatch ?M ev = handleParsedRow ?M row"
      using Step data inv(1,2) by (simp add: dispatch_def)
    with handleParsedRow_accepted [OF acc inv(2)] ih show ?thesis
      by (simp add: run_snoc)
  next
    case (FetchSettled i outcome)
    with ev obtain r where r: "outcome = HttpResponse r" "response_ok r"
        "resp_quotaExceeded r \<noteq> Some True"
      by (cases outcome) (simp_all add: benign_def)
    from FetchSettled r ih benign_reply_received [OF r(2) r(3) inv(3), of i]
    show ?thesis by (simp add: run_snoc)
  next
    case ParseComplete
    with ev show ?thesis by (simp add: benign_def)
  next
    case (ParseError msg)
    with ev show ?thesis by (simp add: benign_def)
  next
    case Terminate
    with ev show ?thesis by (simp add: benign_def)
  qed
qed

text \<open>
  What two uploads in flight do to the report of completion. After 5000 rows the first
  batch is in flight; the end of the input sends the last (empty) batch while the first
  is still in flight. When the reply to the first arrives, \<^verbatim>\<open>uploadInProgress\<close> is
  cleared and \<^verbatim>\<open>checkCompletion\<close> reports "Import completed successfully", although the
  last batch is still in flight.
\<close>

lemma completion_reported_with_upload_in_flight:
  "completions
     (run (startImport (newManager cb) site iid ''2024-01-01'' ''2024-01-31'')
        (replicate 5000 (Step (Some sampleRow))
           @ [ParseComplete, FetchSettled 0 (HttpResponse storedReply)]))
     = (if cb then [(True, ''Import completed successfully'')] else [])
   \<and> map isLastBatch
       (inFlight
         (run (startImport (newManager cb) site iid ''2024-01-01'' ''2024-01-31'')
            (replicate 5000 (Step (Some sampleRow))
               @ [ParseComplete, FetchSettled 0 (HttpResponse storedReply)])))
     = [Some True]"
proof -
  let ?m0 = "startImport (newManager cb) site iid ''2024-01-01'' ''2024-01-31''"
  let ?es = "replicate 5000 (Step (Some sampleRow))"
  let ?M = "run ?m0 ?es"
  note st = started_fields [OF sample_range_eq, of cb site iid]
  have ben: "list_all (benign (dateRange ?m0)) ?es"
    unfolding st(7) by (rule sample_rows_benign)
  have len: "length (map toUmamiEvent (rowsOf ?es)) = 5000"
    by (simp add: rowsOf_replicate)
  from batching_invariant [OF st(1) st(2) st(3) st(4) st(5) ben]
  have inv: "\<not> aborted ?M" "\<not> quotaExceeded ?M" "\<not> parsingComplete ?M"
    "currentBatch ?M = partialBatch (map toUmamiEvent (rowsOf ?es))"
    "sent ?M = map (\<lambda>b. requestFor ?m0 b False) (fullBatches (map toUmamiEvent (rowsOf ?es)))"
    by simp_all
  have cb: "currentBatch ?M = []"
    unfolding inv(4) partialBatch_def using len by (simp add: BATCH_SIZE_def)
  have "length (sent ?M) = 1"
    unfolding inv(5) using len by (simp add: length_fullBatches BATCH_SIZE_def)
  moreover from steps_sent_inFlight [of ?m0 5000 "Some sampleRow"] st(5) st(6)
  have "inFlight ?M = sent ?M" by auto
  ultimately have "length (inFlight ?M) = Suc 0" by simp
  then obtain q where fl: "inFlight ?M = [q]"
    unfolding length_Suc_conv by auto
  from running_no_completions [OF st(1) st(2) st(3) st(4) st(5) ben]
  have cbs: "completions ?M = []" "hasOnComplete ?M = cb"
    by (simp_all add: st(10) st(11))
  have "run ?m0 (?es @ [ParseComplete, FetchSettled 0 (HttpResponse storedReply)])
      = dispatch (dispatch ?M ParseComplete) (FetchSettled 0 (HttpResponse storedReply))"
    by (simp add: run_def)
  also have "dispatch ?M ParseComplete
      = ?M\<lparr> parsingComplete := True, uploadInProgress := True,
             inFlight := [q, requestFor ?M [] True],
             sent := sent ?M @ [requestFor ?M [] True] \<rparr>"
    using inv(1) inv(2) cb fl
    by (simp add: dispatch_def handleParseComplete_def sendBatch_def uploadBatch_def Let_def
          requestFor_def)
  finally have r: "run ?m0 (?es @ [ParseComplete, FetchSettled 0 (HttpResponse storedReply)])
      = dispatch (?M\<lparr> parsingComplete := True, uploadInProgress := True,
             inFlight := [q, requestFor ?M [] True],
             sent := sent ?M @ [requestFor ?M [] True] \<rparr>)
          (FetchSettled 0 (HttpResponse storedReply))" .
  have fin: "run ?m0 (?es @ [ParseComplete, FetchSettled 0 (HttpResponse storedReply)])
      = onComplete (?M\<lparr> parsingComplete := True,
                       sent := sent ?M @ [requestFor ?M [] True],
                       inFlight := [requestFor ?M [] True],
                       uploadInProgress := False \<rparr>)
          True ''Import completed successfully''"
    unfolding r using inv(2)
    by (simp add: dispatch_def uploadBatch_resume_def response_ok_def storedReply_def
          checkCompletion_def)
  have c: "completions (run ?m0 (?es @ [ParseComplete, FetchSettled 0 (HttpResponse storedReply)]))
      = (if cb then [(True, ''Import completed successfully'')] else [])"
  proof -
    have aux: "\<And>M a b c d msg.
        completions (onComplete (M\<lparr> parsingComplete := a, sent := b, inFlight := c,
                                     uploadInProgress := d \<rparr>) True msg)
          = (if hasOnComplete M then completions M @ [(True, msg)] else completions M)"
      by (simp add: onComplete_def)
    show ?thesis unfolding fin aux cbs by simp
  qed
  have f: "map isLastBatch
      (inFlight (run ?m0 (?es @ [ParseComplete, FetchSettled 0 (HttpResponse storedReply)])))
      = [Some True]"
    unfolding fin by (simp add: onComplete_fields requestFor_def)
  from c f show ?thesis by (intro conjI)
qed

subsection \<open>The batch ingestion handler\<close>

lemma sample_uuid: "uuidShape sampleImportId"
  by code_simp

lemma updateImportStatus_row:
  "importStatus db iid = Some s \<Longrightarrow>
   importStatus (updateImportStatus db iid st msg) iid
     = Some (s\<lparr> status := st,
               errorMessage := (case msg of None \<Rightarrow> errorMessage s | Some t \<Rightarrow> Some t) \<rparr>)"
  by (simp add: updateImportStatus_def)

lemma updateImportStatus_frame:
  "sites (updateImportStatus db iid st msg) = sites db
   \<and> clickhouse_events (updateImportStatus db iid st msg) = clickhouse_events db"
  by (simp add: updateImportStatus_def split: option.splits)

lemma setPlatform_row:
  "importStatus db iid = Some s \<Longrightarrow>
   importStatus (setPlatform db iid p) iid = Some (s\<lparr> platform := Some p \<rparr>)"
  by (simp add: setPlatform_def)

lemma setPlatform_frame:
  "sites (setPlatform db iid p) = sites db
   \<and> clickhouse_events (setPlatform db iid p) = clickhouse_events db"
  by (simp add: setPlatform_def split: option.splits)

text \<open>
  The state in which the inner \<^verbatim>\<open>try\<close> block starts: the session is processing, its
  counter and message are as before, and nothing else has changed.
\<close>

lemma prepared_session:
  assumes "importStatus db iid = Some s" and "status s = Pending \<or> status s = Processing"
  shows "\<exists>s2. importStatus
               (if w then setPlatform (if status s = Pending
                                       then updateImportStatus db iid Processing None else db) iid pf
                else (if status s = Pending
                      then updateImportStatus db iid Processing None else db)) iid = Some s2
            \<and> status s2 = Processing \<and> importedEvents s2 = importedEvents s
            \<and> errorMessage s2 = errorMessage s \<and> siteId s2 = siteId s"
  using assms
  by (auto simp: updateImportStatus_row setPlatform_row)

lemma prepared_frame:
  "sites (if w then setPlatform (if c then updateImportStatus db iid st msg else db) iid pf
          else (if c then updateImportStatus db iid st msg else db)) = sites db
   \<and> clickhouse_events
        (if w then setPlatform (if c then updateImportStatus db iid st msg else db) iid pf
         else (if c then updateImportStatus db iid st msg else db)) = clickhouse_events db"
  by (simp add: updateImportStatus_frame setPlatform_frame)

lemma handleBatch_ingest:
  assumes "detectPlatform env s evs = Some (pf, w)"
      and "sites db (siteId s) = Some org"
  shows "handleBatch env db site iid isLast evs s =
           (case ingest env
                   (if w then setPlatform (if status s = Pending
                                           then updateImportStatus db iid Processing None
                                           else db) iid pf
                    else (if status s = Pending
                          then updateImportStatus db iid Processing None else db))
                   site iid org evs isLast of
              Inl (t, db3) \<Rightarrow> insertFailed db3 iid t
            | Inr res \<Rightarrow> res)"
  using assms
  by (simp add: handleBatch_def Let_def updateImportStatus_frame setPlatform_frame)

lemma batchImportEvents_handle:
  assumes "validateRequest env req = Some evs"
      and "userHasAdminAccess env"
      and "importStatus db (param_importId req) = Some s"
      and "jsNumber env (param_site req) = Some (siteId s)"
      and "status s = Pending \<or> status s = Processing"
  shows "batchImportEvents env db req =
           handleBatch env db (param_site req) (param_importId req)
             (isLastBatch req = Some True) evs s"
  using assms
  by (auto simp: batchImportEvents_def getImportById_def Let_def)

text \<open>A session that is completed or failed: every request for it is answered with an
  error and changes nothing.\<close>

lemma terminal_session_rejects:
  assumes "importStatus db (param_importId req) = Some s"
      and "status s = Completed \<or> status s = Failed"
  shows "400 \<le> statusCode (fst (batchImportEvents env db req))
       \<and> error (fst (batchImportEvents env db req)) \<noteq> None
       \<and> snd (batchImportEvents env db req) = db"
  using assms
  by (auto simp: batchImportEvents_def getImportById_def errorReply_def Let_def
           split: option.splits)

text \<open>The inner \<^verbatim>\<open>try\<close> block when the insert throws.\<close>

lemma ingest_insert_throws:
  assumes "quotaTracker_create env org = Inr q0"
      and "quotaLoop env evs q0 [] 0 = (within, skipped, q1)"
      and "within \<noteq> []"
      and "transform env within site iid \<noteq> []"
      and "insertThrows env (transform env within site iid) = Some t"
  shows "ingest env db site iid org evs isLast = Inl (t, db)"
  using assms by (simp add: ingest_def storeEvents_def Let_def)

text \<open>The inner \<^verbatim>\<open>try\<close> block when the loop admits no event.\<close>

lemma ingest_nothing_admitted:
  assumes "quotaTracker_create env org = Inr q0"
      and "quotaLoop env evs q0 [] 0 = ([], skipped, q1)"
  shows "ingest env db site iid org evs isLast
           = Inr (nothingAdmitted env db iid (length evs) q1 isLast)"
  using assms by (simp add: ingest_def)

text \<open>The loop admits no event when no event has a \<^verbatim>\<open>created_at\<close>, and does not ask
  the tracker.\<close>

lemma quotaLoop_no_created_at:
  "list_all (\<lambda>e. created_at e = []) evs \<Longrightarrow> quotaLoop env evs q acc n = (acc, n, q)"
  by (induction evs) simp_all

text \<open>
  Claim C3. When the session named by the request is completed or failed, the handler
  answers with an error (a status of 400 or more and an error text) and the database,
  and with it the session's counter and status, is as it was.
\<close>

theorem terminal_state_rejection:
  assumes "importStatus db (param_importId req) = Some s"
      and "status s = Completed \<or> status s = Failed"
  shows "400 \<le> statusCode (fst (batchImportEvents env db req))
       \<and> error (fst (batchImportEvents env db req)) \<noteq> None
       \<and> snd (batchImportEvents env db req) = db
       \<and> importStatus (snd (batchImportEvents env db req)) (param_importId req) = Some s"
  using assms
  by (auto simp: batchImportEvents_def getImportById_def errorReply_def Let_def
           split: option.splits)

theorem terminal_state_rejection_witness:
  "importStatus (sampleDb Completed) (param_importId sampleRequest) = Some (sampleSession Completed)
   \<and> status (sampleSession Completed) = Completed
   \<and> fst (batchImportEvents sampleEnv (sampleDb Completed) sampleRequest)
       = errorReply 400 ''Import already completed''
   \<and> snd (batchImportEvents sampleEnv (sampleDb Completed) sampleRequest) = sampleDb Completed"
proof -
  have a: "importStatus (sampleDb Completed) (param_importId sampleRequest)
             = Some (sampleSession Completed)"
    by (simp add: sampleDb_def sampleRequest_def)
  have b: "status (sampleSession Completed) = Completed"
    by (simp add: sampleSession_def)
  have c: "fst (batchImportEvents sampleEnv (sampleDb Completed) sampleRequest)
             = errorReply 400 ''Import already completed''"
    by (simp add: batchImportEvents_def validateRequest_def sample_uuid sampleEnv_def sampleRequest_def
          sampleDb_def sampleSession_def getImportById_def Let_def)
  from terminal_state_rejection [OF a, of sampleEnv] b
  have d: "snd (batchImportEvents sampleEnv (sampleDb Completed) sampleRequest)
             = sampleDb Completed"
    by blast
  from a b c d show ?thesis by blast
qed

text \<open>
  Claim C4. When the handler reaches the insert and the insert throws: the reply is a
  500 with the error text; the session is failed, with the error text as its message,
  and its counter is what it was before the request; the table of events is what it was
  (the insert is the handler's only write to it, and it is one call); and every later
  request for this import is answered with an error and changes nothing.
\<close>

theorem insert_failure_fails_session:
  fixes env :: "('q, 'row) Env" and db :: "'row Database"
  assumes v: "validateRequest env req = Some evs"
      and a: "userHasAdminAccess env"
      and s: "importStatus db (param_importId req) = Some s"
      and n: "jsNumber env (param_site req) = Some (siteId s)"
      and st: "status s = Pending \<or> status s = Processing"
      and p: "detectPlatform env s evs = Some (pf, w)"
      and o: "sites db (siteId s) = Some org"
      and q: "quotaTracker_create env org = Inr q0"
      and l: "quotaLoop env evs q0 [] 0 = (within, skipped, q1)"
      and ne: "within \<noteq> []"
      and tr: "transform env within (param_site req) (param_importId req) \<noteq> []"
      and th: "insertThrows env (transform env within (param_site req) (param_importId req)) = Some t"
  shows "fst (batchImportEvents env db req)
           = \<lparr> statusCode = 500, success = Some False, importedCount = None,
               resp_quotaExceeded = None, message = Some (thrownMessage t),
               error = Some ''Failed to insert events'' \<rparr>
       \<and> (\<exists>s'. importStatus (snd (batchImportEvents env db req)) (param_importId req) = Some s'
               \<and> status s' = Failed
               \<and> errorMessage s' = Some (''Failed to insert events: '' @ thrownMessage t)
               \<and> importedEvents s' = importedEvents s)
       \<and> clickhouse_events (snd (batchImportEvents env db req)) = clickhouse_events db
       \<and> (\<forall>(env' :: ('p, 'row) Env) req'. param_importId req' = param_importId req \<longrightarrow>
             400 \<le> statusCode (fst (batchImportEvents env' (snd (batchImportEvents env db req)) req'))
           \<and> error (fst (batchImportEvents env' (snd (batchImportEvents env db req)) req')) \<noteq> None
           \<and> snd (batchImportEvents env' (snd (batchImportEvents env db req)) req')
               = snd (batchImportEvents env db req))"
proof -
  let ?iid = "param_importId req"
  let ?db2 = "if w then setPlatform (if status s = Pending
                                       then updateImportStatus db ?iid Processing None else db) ?iid pf
                else (if status s = Pending
                      then updateImportStatus db ?iid Processing None else db)"
  from prepared_session [OF s st, of w pf]
  obtain s2 where s2: "importStatus ?db2 ?iid = Some s2" "status s2 = Processing"
      "importedEvents s2 = importedEvents s" by blast
  have res: "batchImportEvents env db req = insertFailed ?db2 ?iid t"
    using batchImportEvents_handle [OF v a s n st] handleBatch_ingest [OF p o]
      ingest_insert_throws [OF q l ne tr th] by simp
  have r1: "fst (batchImportEvents env db req)
           = \<lparr> statusCode = 500, success = Some False, importedCount = None,
               resp_quotaExceeded = None, message = Some (thrownMessage t),
               error = Some ''Failed to insert events'' \<rparr>"
    by (simp add: res insertFailed_def Let_def)
  have db': "snd (batchImportEvents env db req)
           = updateImportStatus ?db2 ?iid Failed (Some (''Failed to insert events: '' @ thrownMessage t))"
    by (simp add: res insertFailed_def Let_def)
  have row: "importStatus (snd (batchImportEvents env db req)) ?iid
           = Some (s2\<lparr> status := Failed, errorMessage := Some (''Failed to insert events: '' @ thrownMessage t) \<rparr>)"
    unfolding db' using updateImportStatus_row [OF s2(1)] by simp
  have r2: "\<exists>s'. importStatus (snd (batchImportEvents env db req)) ?iid = Some s'
               \<and> status s' = Failed
               \<and> errorMessage s' = Some (''Failed to insert events: '' @ thrownMessage t)
               \<and> importedEvents s' = importedEvents s"
    using row s2(3) by simp
  have r3: "clickhouse_events (snd (batchImportEvents env db req)) = clickhouse_events db"
    unfolding db' using updateImportStatus_frame prepared_frame by metis
  have r4: "\<forall>(env' :: ('p, 'row) Env) req'. param_importId req' = param_importId req \<longrightarrow>
             400 \<le> statusCode (fst (batchImportEvents env' (snd (batchImportEvents env db req)) req'))
           \<and> error (fst (batchImportEvents env' (snd (batchImportEvents env db req)) req')) \<noteq> None
           \<and> snd (batchImportEvents env' (snd (batchImportEvents env db req)) req')
               = snd (batchImportEvents env db req)"
  proof (intro allI impI)
    fix env' :: "('p, 'row) Env" and req' :: BatchImportRequest
    assume same: "param_importId req' = param_importId req"
    have "status (s2\<lparr> status := Failed, errorMessage := Some (''Failed to insert events: '' @ thrownMessage t) \<rparr>) = Completed
        \<or> status (s2\<lparr> status := Failed, errorMessage := Some (''Failed to insert events: '' @ thrownMessage t) \<rparr>) = Failed"
      by simp
    with terminal_session_rejects [of "snd (batchImportEvents env db req)" req' _ env'] row same
    show "400 \<le> statusCode (fst (batchImportEvents env' (snd (batchImportEvents env db req)) req'))
           \<and> error (fst (batchImportEvents env' (snd (batchImportEvents env db req)) req')) \<noteq> None
           \<and> snd (batchImportEvents env' (snd (batchImportEvents env db req)) req')
               = snd (batchImportEvents env db req)"
      by simp
  qed
  from r1 r2 r3 r4 show ?thesis by blast
qed

theorem insert_failure_fails_session_witness:
  "validateRequest failingInsertEnv sampleRequest = Some [toUmamiEvent sampleRow]
   \<and> userHasAdminAccess failingInsertEnv
   \<and> importStatus (sampleDb Pending) (param_importId sampleRequest) = Some (sampleSession Pending)
   \<and> jsNumber failingInsertEnv (param_site sampleRequest) = Some (siteId (sampleSession Pending))
   \<and> status (sampleSession Pending) = Pending
   \<and> detectPlatform failingInsertEnv (sampleSession Pending) [toUmamiEvent sampleRow]
       = Some (''umami'', True)
   \<and> sites (sampleDb Pending) (siteId (sampleSession Pending)) = Some ''org-1''
   \<and> quotaTracker_create failingInsertEnv ''org-1'' = Inr ()
   \<and> quotaLoop failingInsertEnv [toUmamiEvent sampleRow] () [] 0 = ([toUmamiEvent sampleRow], 0, ())
   \<and> transform failingInsertEnv [toUmamiEvent sampleRow] (param_site sampleRequest)
        (param_importId sampleRequest) = [toUmamiEvent sampleRow]
   \<and> insertThrows failingInsertEnv [toUmamiEvent sampleRow] = Some (ErrorObject ''Connection refused'')
   \<and> fst (batchImportEvents failingInsertEnv (sampleDb Pending) sampleRequest)
       = \<lparr> statusCode = 500, success = Some False, importedCount = None,
           resp_quotaExceeded = None, message = Some ''Connection refused'',
           error = Some ''Failed to insert events'' \<rparr>
   \<and> (\<exists>s'. importStatus (snd (batchImportEvents failingInsertEnv (sampleDb Pending) sampleRequest))
               sampleImportId = Some s'
            \<and> status s' = Failed
            \<and> errorMessage s' = Some ''Failed to insert events: Connection refused''
            \<and> importedEvents s' = 0)
   \<and> clickhouse_events (snd (batchImportEvents failingInsertEnv (sampleDb Pending) sampleRequest)) = []
   \<and> 400 \<le> statusCode (fst (batchImportEvents sampleEnv
               (snd (batchImportEvents failingInsertEnv (sampleDb Pending) sampleRequest))
               sampleRequest))"
proof -
  have v: "validateRequest failingInsertEnv sampleRequest = Some [toUmamiEvent sampleRow]"
    by (simp add: validateRequest_def sample_uuid failingInsertEnv_def sampleEnv_def sampleRequest_def)
  have a: "userHasAdminAccess failingInsertEnv"
    by (simp add: failingInsertEnv_def sampleEnv_def)
  have s: "importStatus (sampleDb Pending) (param_importId sampleRequest)
             = Some (sampleSession Pending)"
    by (simp add: sampleDb_def sampleRequest_def)
  have n: "jsNumber failingInsertEnv (param_site sampleRequest)
             = Some (siteId (sampleSession Pending))"
    by (simp add: failingInsertEnv_def sampleEnv_def sampleRequest_def sampleSession_def)
  have st: "status (sampleSession Pending) = Pending"
    by (simp add: sampleSession_def)
  have p: "detectPlatform failingInsertEnv (sampleSession Pending) [toUmamiEvent sampleRow]
             = Some (''umami'', True)"
    by (simp add: detectPlatform_def failingInsertEnv_def sampleEnv_def sampleSession_def)
  have o: "sites (sampleDb Pending) (siteId (sampleSession Pending)) = Some ''org-1''"
    by (simp add: sampleDb_def sampleSession_def)
  have q: "quotaTracker_create failingInsertEnv ''org-1'' = Inr ()"
    by (simp add: failingInsertEnv_def sampleEnv_def)
  have l: "quotaLoop failingInsertEnv [toUmamiEvent sampleRow] () [] 0
             = ([toUmamiEvent sampleRow], 0, ())"
    by (simp add: failingInsertEnv_def sampleEnv_def sampleRow_created_at)
  have tr: "transform failingInsertEnv [toUmamiEvent sampleRow] (param_site sampleRequest)
              (param_importId sampleRequest) = [toUmamiEvent sampleRow]"
    by (simp add: failingInsertEnv_def sampleEnv_def)
  have th: "insertThrows failingInsertEnv [toUmamiEvent sampleRow]
              = Some (ErrorObject ''Connection refused'')"
    by (simp add: failingInsertEnv_def sampleEnv_def)
  have ne: "[toUmamiEvent sampleRow] \<noteq> []" by simp
  have tr': "transform failingInsertEnv [toUmamiEvent sampleRow] (param_site sampleRequest)
              (param_importId sampleRequest) \<noteq> []"
    unfolding tr by simp
  have th': "insertThrows failingInsertEnv
               (transform failingInsertEnv [toUmamiEvent sampleRow] (param_site sampleRequest)
                  (param_importId sampleRequest)) = Some (ErrorObject ''Connection refused'')"
    unfolding tr by (rule th)
  have st': "status (sampleSession Pending) = Pending \<or> status (sampleSession Pending) = Processing"
    using st by simp
  note main = insert_failure_fails_session [OF v a s n st' p o q l ne tr' th']
  have id: "param_importId sampleRequest = sampleImportId"
    by (simp add: sampleRequest_def)
  have m: "thrownMessage (ErrorObject ''Connection refused'') = ''Connection refused''"
    by (simp add: thrownMessage_def)
  have c0: "importedEvents (sampleSession Pending) = 0"
    by (simp add: sampleSession_def)
  have c1: "clickhouse_events (sampleDb Pending) = []"
    by (simp add: sampleDb_def)
  note p1 = main [THEN conjunct1]
  note p2 = main [THEN conjunct2, THEN conjunct1]
  note p3 = main [THEN conjunct2, THEN conjunct2, THEN conjunct1]
  note p4 = main [THEN conjunct2, THEN conjunct2, THEN conjunct2]
  from p1 have r1: "fst (batchImportEvents failingInsertEnv (sampleDb Pending) sampleRequest)
       = \<lparr> statusCode = 500, success = Some False, importedCount = None,
           resp_quotaExceeded = None, message = Some ''Connection refused'',
           error = Some ''Failed to insert events'' \<rparr>"
    by (simp add: m)
  from p2 have r2: "\<exists>s'. importStatus
              (snd (batchImportEvents failingInsertEnv (sampleDb Pending) sampleRequest))
               sampleImportId = Some s'
            \<and> status s' = Failed
            \<and> errorMessage s' = Some ''Failed to insert events: Connection refused''
            \<and> importedEvents s' = 0"
    by (simp add: id m c0)
  from p3 have r3: "clickhouse_events
       (snd (batchImportEvents failingInsertEnv (sampleDb Pending) sampleRequest)) = []"
    by (simp add: c1)
  have r4: "400 \<le> statusCode (fst (batchImportEvents sampleEnv
               (snd (batchImportEvents failingInsertEnv (sampleDb Pending) sampleRequest))
               sampleRequest))"
    using p4 [THEN spec, of sampleEnv, THEN spec, of sampleRequest] by simp
  from v a s n st p o q l tr th r1 r2 r3 r4 show ?thesis
    by (intro conjI)
qed

text \<open>The reply and the session when the loop admits no event.\<close>

lemma nothing_admitted_reply:
  fixes env :: "('q, 'row) Env" and db :: "'row Database"
  assumes v: "validateRequest env req = Some evs"
      and a: "userHasAdminAccess env"
      and s: "importStatus db (param_importId req) = Some s"
      and n: "jsNumber env (param_site req) = Some (siteId s)"
      and st: "status s = Pending \<or> status s = Processing"
      and p: "detectPlatform env s evs = Some (pf, w)"
      and o: "sites db (siteId s) = Some org"
      and q: "quotaTracker_create env org = Inr q0"
      and l: "quotaLoop env evs q0 [] 0 = ([], skipped, q1)"
  shows "fst (batchImportEvents env db req)
           = \<lparr> statusCode = 200, success = Some True, importedCount = Some 0,
               resp_quotaExceeded = Some True,
               message = Some (quotaMessage (length evs) (getSummary env q1)), error = None \<rparr>
       \<and> (\<exists>s'. importStatus (snd (batchImportEvents env db req)) (param_importId req) = Some s'
               \<and> importedEvents s' = importedEvents s
               \<and> status s' = (if isLastBatch req = Some True then Completed else Processing)
               \<and> errorMessage s'
                   = (if isLastBatch req = Some True
                      then Some (quotaMessage (length evs) (getSummary env q1))
                      else errorMessage s))
       \<and> clickhouse_events (snd (batchImportEvents env db req)) = clickhouse_events db"
proof -
  let ?iid = "param_importId req"
  let ?db2 = "if w then setPlatform (if status s = Pending
                                       then updateImportStatus db ?iid Processing None else db) ?iid pf
                else (if status s = Pending
                      then updateImportStatus db ?iid Processing None else db)"
  let ?msg = "quotaMessage (length evs) (getSummary env q1)"
  from prepared_session [OF s st, of w pf]
  obtain s2 where s2: "importStatus ?db2 ?iid = Some s2" "status s2 = Processing"
      "importedEvents s2 = importedEvents s" "errorMessage s2 = errorMessage s" by blast
  have res: "batchImportEvents env db req
               = nothingAdmitted env ?db2 ?iid (length evs) q1 (isLastBatch req = Some True)"
    using batchImportEvents_handle [OF v a s n st] handleBatch_ingest [OF p o]
      ingest_nothing_admitted [OF q l] by simp
  have r1: "fst (batchImportEvents env db req)
           = \<lparr> statusCode = 200, success = Some True, importedCount = Some 0,
               resp_quotaExceeded = Some True, message = Some ?msg, error = None \<rparr>"
    by (simp add: res nothingAdmitted_def Let_def)
  have db': "snd (batchImportEvents env db req)
           = (if isLastBatch req = Some True
              then updateImportStatus ?db2 ?iid Completed (Some ?msg) else ?db2)"
    by (simp add: res nothingAdmitted_def Let_def)
  have r2: "\<exists>s'. importStatus (snd (batchImportEvents env db req)) ?iid = Some s'
               \<and> importedEvents s' = importedEvents s
               \<and> status s' = (if isLastBatch req = Some True then Completed else Processing)
               \<and> errorMessage s'
                   = (if isLastBatch req = Some True then Some ?msg else errorMessage s)"
  proof (cases "isLastBatch req = Some True")
    case True
    then have "importStatus (snd (batchImportEvents env db req)) ?iid
                 = Some (s2\<lparr> status := Completed, errorMessage := Some ?msg \<rparr>)"
      unfolding db' using updateImportStatus_row [OF s2(1)] by simp
    with True s2 show ?thesis by simp
  next
    case False
    then have "importStatus (snd (batchImportEvents env db req)) ?iid = Some s2"
      unfolding db' using s2(1) by simp
    with False s2 show ?thesis by simp
  qed
  have r3: "clickhouse_events (snd (batchImportEvents env db req)) = clickhouse_events db"
    unfolding db' by (simp add: updateImportStatus_frame setPlatform_frame)
  from r1 r2 r3 show ?thesis by (intro conjI)
qed

lemma quotaMessage_not_empty: "quotaMessage n summary \<noteq> []"
  by (simp add: quotaMessage_def split: prod.splits)

lemma orDefault_Some: "t \<noteq> [] \<Longrightarrow> orDefault (Some t) d = t"
  by (simp add: orDefault_def)

text \<open>
  Claim C5. Server: when the request reaches the loop and the tracker admits no event,
  the reply is a success with \<^verbatim>\<open>importedCount\<close> 0, \<^verbatim>\<open>quotaExceeded: true\<close> and the
  quota message; with \<^verbatim>\<open>isLastBatch\<close> the session is completed with that message, and
  without it the session is processing; the counter is unchanged. Client: when any
  successful reply \<open>r\<close> that carries \<^verbatim>\<open>quotaExceeded: true\<close> arrives for a pending upload,
  the coordinator sets \<^verbatim>\<open>quotaExceeded\<close> and \<^verbatim>\<open>aborted\<close>, calls the callback (if it
  has one) with success and the reply's message (or a fixed text when the reply has
  none), and after that, whatever events follow, sends no request and takes no row
  into the batch. For the server's reply above the message reported is the quota message.
\<close>

theorem quota_exhausted_soft_stop:
  fixes env :: "('q, 'row) Env" and db :: "'row Database"
  assumes v: "validateRequest env req = Some evs"
      and a: "userHasAdminAccess env"
      and s: "importStatus db (param_importId req) = Some s"
      and n: "jsNumber env (param_site req) = Some (siteId s)"
      and st: "status s = Pending \<or> status s = Processing"
      and p: "detectPlatform env s evs = Some (pf, w)"
      and o: "sites db (siteId s) = Some org"
      and q: "quotaTracker_create env org = Inr q0"
      and l: "quotaLoop env evs q0 [] 0 = ([], skipped, q1)"
      and i: "i < length (inFlight m)"
      and ok: "response_ok r"
      and qe: "resp_quotaExceeded r = Some True"
  shows "fst (batchImportEvents env db req)
           = \<lparr> statusCode = 200, success = Some True, importedCount = Some 0,
               resp_quotaExceeded = Some True,
               message = Some (quotaMessage (length evs) (getSummary env q1)), error = None \<rparr>
       \<and> (\<exists>s'. importStatus (snd (batchImportEvents env db req)) (param_importId req) = Some s'
               \<and> importedEvents s' = importedEvents s
               \<and> status s' = (if isLastBatch req = Some True then Completed else Processing)
               \<and> errorMessage s'
                   = (if isLastBatch req = Some True
                      then Some (quotaMessage (length evs) (getSummary env q1))
                      else errorMessage s))
       \<and> quotaExceeded (dispatch m (FetchSettled i (HttpResponse r)))
       \<and> aborted (dispatch m (FetchSettled i (HttpResponse r)))
       \<and> completions (dispatch m (FetchSettled i (HttpResponse r)))
           = (if hasOnComplete m
              then completions m @ [(True, orDefault (message r) ''Import completed with quota limits'')]
              else completions m)
       \<and> (\<forall>es. sent (run (dispatch m (FetchSettled i (HttpResponse r))) es) = sent m
              \<and> currentBatch (run (dispatch m (FetchSettled i (HttpResponse r))) es)
                  = currentBatch m)
       \<and> orDefault (message (fst (batchImportEvents env db req)))
            ''Import completed with quota limits''
           = quotaMessage (length evs) (getSummary env q1)"
proof -
  note srv = nothing_admitted_reply [OF v a s n st p o q l]
  note cli = quota_reply_received [OF i ok qe]
  have after: "\<forall>es. sent (run (dispatch m (FetchSettled i (HttpResponse r))) es) = sent m
              \<and> currentBatch (run (dispatch m (FetchSettled i (HttpResponse r))) es)
                  = currentBatch m"
  proof
    fix es
    from cli have f: "quotaExceeded (dispatch m (FetchSettled i (HttpResponse r)))"
      "aborted (dispatch m (FetchSettled i (HttpResponse r)))" by simp_all
    from stopped_run [OF f, of es] cli
    show "sent (run (dispatch m (FetchSettled i (HttpResponse r))) es) = sent m
              \<and> currentBatch (run (dispatch m (FetchSettled i (HttpResponse r))) es)
                  = currentBatch m"
      by simp
  qed
  have msg: "orDefault (message (fst (batchImportEvents env db req)))
            ''Import completed with quota limits''
           = quotaMessage (length evs) (getSummary env q1)"
    using srv by (simp add: orDefault_Some quotaMessage_not_empty)
  note s1 = srv [THEN conjunct1]
  note s2 = srv [THEN conjunct2, THEN conjunct1]
  note c1 = cli [THEN conjunct1]
  note c2 = cli [THEN conjunct2, THEN conjunct1]
  note c3 = cli [THEN conjunct2, THEN conjunct2, THEN conjunct1]
  from s1 s2 c1 c2 c3 after msg show ?thesis by (intro conjI)
qed

lemma sampleManager_inFlight: "length (inFlight sampleManager) = 1"
  by code_simp

lemma sampleManager_callback: "hasOnComplete sampleManager" "completions sampleManager = []"
  by code_simp+

lemma sample_session_facts:
  "importStatus (sampleDb st) (param_importId sampleRequest) = Some (sampleSession st)"
  "jsNumber sampleEnv (param_site sampleRequest) = Some (siteId (sampleSession st))"
  "status (sampleSession st) = st"
  "sites (sampleDb st) (siteId (sampleSession st)) = Some ''org-1''"
  "importedEvents (sampleSession st) = 0"
  "errorMessage (sampleSession st) = None"
  "clickhouse_events (sampleDb st) = []"
  "param_importId sampleRequest = sampleImportId"
  "isLastBatch sampleRequest = Some True"
  by (simp_all add: sampleDb_def sampleRequest_def sampleEnv_def sampleSession_def)

lemma sample_detects:
  "detectPlatform sampleEnv (sampleSession st) [e] = Some (''umami'', True)"
  by (simp add: detectPlatform_def sampleEnv_def sampleSession_def)

theorem quota_exhausted_soft_stop_witness:
  "validateRequest exhaustedQuotaEnv sampleRequest = Some [toUmamiEvent sampleRow]
   \<and> userHasAdminAccess exhaustedQuotaEnv
   \<and> importStatus (sampleDb Pending) (param_importId sampleRequest) = Some (sampleSession Pending)
   \<and> jsNumber exhaustedQuotaEnv (param_site sampleRequest) = Some (siteId (sampleSession Pending))
   \<and> status (sampleSession Pending) = Pending
   \<and> detectPlatform exhaustedQuotaEnv (sampleSession Pending) [toUmamiEvent sampleRow]
       = Some (''umami'', True)
   \<and> sites (sampleDb Pending) (siteId (sampleSession Pending)) = Some ''org-1''
   \<and> quotaTracker_create exhaustedQuotaEnv ''org-1'' = Inr ()
   \<and> quotaLoop exhaustedQuotaEnv [toUmamiEvent sampleRow] () [] 0 = ([], 1, ())
   \<and> 0 < length (inFlight sampleManager)
   \<and> response_ok exhaustedReply
   \<and> resp_quotaExceeded exhaustedReply = Some True
   \<and> fst (batchImportEvents exhaustedQuotaEnv (sampleDb Pending) sampleRequest) = exhaustedReply
   \<and> (\<exists>s'. importStatus (snd (batchImportEvents exhaustedQuotaEnv (sampleDb Pending) sampleRequest))
               sampleImportId = Some s'
            \<and> importedEvents s' = 0 \<and> status s' = Completed
            \<and> errorMessage s' = Some (quotaMessage 1 (12, 12)))
   \<and> quotaExceeded (dispatch sampleManager (FetchSettled 0 (HttpResponse exhaustedReply)))
   \<and> aborted (dispatch sampleManager (FetchSettled 0 (HttpResponse exhaustedReply)))
   \<and> completions (dispatch sampleManager (FetchSettled 0 (HttpResponse exhaustedReply)))
       = [(True, quotaMessage 1 (12, 12))]
   \<and> sent (run (dispatch sampleManager (FetchSettled 0 (HttpResponse exhaustedReply)))
              [Step (Some sampleRow), ParseComplete]) = sent sampleManager"
proof -
  have env: "exhaustedQuotaEnv
      = sampleEnv\<lparr> canImportEvent := (\<lambda>q _. (False, q)), getSummary := (\<lambda>_. (12, 12)) \<rparr>"
    by (rule exhaustedQuotaEnv_def)
  have v: "validateRequest exhaustedQuotaEnv sampleRequest = Some [toUmamiEvent sampleRow]"
    by (simp add: validateRequest_def sample_uuid exhaustedQuotaEnv_def sampleEnv_def sampleRequest_def)
  have a: "userHasAdminAccess exhaustedQuotaEnv"
    by (simp add: env sampleEnv_def)
  note s = sample_session_facts(1) [of Pending]
  have n: "jsNumber exhaustedQuotaEnv (param_site sampleRequest)
             = Some (siteId (sampleSession Pending))"
    by (simp add: exhaustedQuotaEnv_def sampleEnv_def sampleRequest_def sampleSession_def)
  note st = sample_session_facts(3) [of Pending]
  have st': "status (sampleSession Pending) = Pending \<or> status (sampleSession Pending) = Processing"
    using st by simp
  have p: "detectPlatform exhaustedQuotaEnv (sampleSession Pending) [toUmamiEvent sampleRow]
             = Some (''umami'', True)"
    by (simp add: detectPlatform_def exhaustedQuotaEnv_def sampleEnv_def sampleSession_def)
  note o = sample_session_facts(4) [of Pending]
  have q: "quotaTracker_create exhaustedQuotaEnv ''org-1'' = Inr ()"
    by (simp add: env sampleEnv_def)
  have l: "quotaLoop exhaustedQuotaEnv [toUmamiEvent sampleRow] () [] 0 = ([], 1, ())"
    by (simp add: env sampleRow_created_at)
  have i: "0 < length (inFlight sampleManager)"
    by (simp add: sampleManager_inFlight)
  have ok: "response_ok exhaustedReply"
    by (simp add: response_ok_def exhaustedReply_def)
  have qe: "resp_quotaExceeded exhaustedReply = Some True"
    by (simp add: exhaustedReply_def)
  have gs: "getSummary exhaustedQuotaEnv () = (12, 12)"
    by (simp add: env)
  have om: "orDefault (message exhaustedReply) ''Import completed with quota limits''
              = quotaMessage 1 (12, 12)"
    by (simp add: exhaustedReply_def orDefault_Some quotaMessage_not_empty)
  note main = quota_exhausted_soft_stop [OF v a s n st' p o q l i ok qe]
  note m1 = main [THEN conjunct1]
  note m2 = main [THEN conjunct2, THEN conjunct1]
  note m3 = main [THEN conjunct2, THEN conjunct2, THEN conjunct1]
  note m4 = main [THEN conjunct2, THEN conjunct2, THEN conjunct2, THEN conjunct1]
  note m5 = main [THEN conjunct2, THEN conjunct2, THEN conjunct2, THEN conjunct2, THEN conjunct1]
  note m6 = main [THEN conjunct2, THEN conjunct2, THEN conjunct2, THEN conjunct2, THEN conjunct2,
                  THEN conjunct1]
  from m1 have r1: "fst (batchImportEvents exhaustedQuotaEnv (sampleDb Pending) sampleRequest)
                      = exhaustedReply"
    by (simp add: gs exhaustedReply_def)
  from m2 have r2: "\<exists>s'. importStatus
               (snd (batchImportEvents exhaustedQuotaEnv (sampleDb Pending) sampleRequest))
               sampleImportId = Some s'
            \<and> importedEvents s' = 0 \<and> status s' = Completed
            \<and> errorMessage s' = Some (quotaMessage 1 (12, 12))"
    by (simp add: gs sample_session_facts)
  from m5 have r5: "completions (dispatch sampleManager (FetchSettled 0 (HttpResponse exhaustedReply)))
       = [(True, quotaMessage 1 (12, 12))]"
    by (simp add: om sampleManager_callback)
  from m6 [THEN spec, of "[Step (Some sampleRow), ParseComplete]"]
  have r6: "sent (run (dispatch sampleManager (FetchSettled 0 (HttpResponse exhaustedReply)))
              [Step (Some sampleRow), ParseComplete]) = sent sampleManager"
    by (rule conjunct1)
  from v a s n st p o q l i ok qe r1 r2 m3 m4 r5 r6 show ?thesis
    by (intro conjI)
qed

text \<open>
  Claim C10. When the request reaches the loop and no event has a \<^verbatim>\<open>created_at\<close>, the
  loop passes over every event: it admits none, it counts none as skipped for quota,
  and it never asks the tracker, whatever the tracker would have answered. The reply is
  all the same the success with \<^verbatim>\<open>importedCount\<close> 0, \<^verbatim>\<open>quotaExceeded: true\<close> and the
  quota message, and with \<^verbatim>\<open>isLastBatch\<close> the session is completed with that message.
  The coordinator that receives this reply for a pending upload sets \<^verbatim>\<open>quotaExceeded\<close>
  and \<^verbatim>\<open>aborted\<close>, reports success with the quota message (if it has a callback), and
  sends no request after that, whatever events follow.
\<close>

theorem empty_created_at_reported_as_quota:
  fixes env :: "('q, 'row) Env" and db :: "'row Database"
  assumes v: "validateRequest env req = Some evs"
      and a: "userHasAdminAccess env"
      and s: "importStatus db (param_importId req) = Some s"
      and n: "jsNumber env (param_site req) = Some (siteId s)"
      and st: "status s = Pending \<or> status s = Processing"
      and p: "detectPlatform env s evs = Some (pf, w)"
      and o: "sites db (siteId s) = Some org"
      and q: "quotaTracker_create env org = Inr q0"
      and e: "list_all (\<lambda>e. created_at e = []) evs"
      and i: "i < length (inFlight m)"
  shows "quotaLoop env evs q0 [] 0 = ([], 0, q0)
       \<and> fst (batchImportEvents env db req)
           = \<lparr> statusCode = 200, success = Some True, importedCount = Some 0,
               resp_quotaExceeded = Some True,
               message = Some (quotaMessage (length evs) (getSummary env q0)), error = None \<rparr>
       \<and> (\<exists>s'. importStatus (snd (batchImportEvents env db req)) (param_importId req) = Some s'
               \<and> importedEvents s' = importedEvents s
               \<and> status s' = (if isLastBatch req = Some True then Completed else Processing)
               \<and> errorMessage s'
                   = (if isLastBatch req = Some True
                      then Some (quotaMessage (length evs) (getSummary env q0))
                      else errorMessage s))
       \<and> quotaExceeded
            (dispatch m (FetchSettled i (HttpResponse (fst (batchImportEvents env db req)))))
       \<and> aborted
            (dispatch m (FetchSettled i (HttpResponse (fst (batchImportEvents env db req)))))
       \<and> completions
            (dispatch m (FetchSettled i (HttpResponse (fst (batchImportEvents env db req)))))
           = (if hasOnComplete m
              then completions m @ [(True, quotaMessage (length evs) (getSummary env q0))]
              else completions m)
       \<and> (\<forall>es. sent (run (dispatch m (FetchSettled i
                                (HttpResponse (fst (batchImportEvents env db req))))) es)
                = sent m)"
proof -
  let ?r = "fst (batchImportEvents env db req)"
  have l: "quotaLoop env evs q0 [] 0 = ([], 0, q0)"
    using quotaLoop_no_created_at [OF e] .
  note srv = nothing_admitted_reply [OF v a s n st p o q l]
  note s1 = srv [THEN conjunct1]
  note s2 = srv [THEN conjunct2, THEN conjunct1]
  have ok: "response_ok ?r" unfolding s1 by (simp add: response_ok_def)
  have qe: "resp_quotaExceeded ?r = Some True" unfolding s1 by simp
  have om: "orDefault (message ?r) ''Import completed with quota limits''
              = quotaMessage (length evs) (getSummary env q0)"
    unfolding s1 by (simp add: orDefault_Some quotaMessage_not_empty)
  note cli = quota_reply_received [OF i ok qe]
  note c1 = cli [THEN conjunct1]
  note c2 = cli [THEN conjunct2, THEN conjunct1]
  note c3 = cli [THEN conjunct2, THEN conjunct2, THEN conjunct1, unfolded om]
  note c4 = cli [THEN conjunct2, THEN conjunct2, THEN conjunct2, THEN conjunct1]
  have after: "\<forall>es. sent (run (dispatch m (FetchSettled i (HttpResponse ?r))) es) = sent m"
  proof
    fix es
    from stopped_run [OF c1 c2, of es] c4
    show "sent (run (dispatch m (FetchSettled i (HttpResponse ?r))) es) = sent m"
      by simp
  qed
  from l s1 s2 c1 c2 c3 after show ?thesis by (intro conjI)
qed

lemma undefined_row_created_at: "created_at (toUmamiEvent (\<lambda>_. JUndefined)) = []"
  by (simp add: toUmamiEvent_def js_String_def js_or_def truthy_def)

theorem empty_created_at_reported_as_quota_witness:
  "validateRequest sampleEnv emptyCreatedAtRequest = Some [toUmamiEvent (\<lambda>_. JUndefined)]
   \<and> userHasAdminAccess sampleEnv
   \<and> importStatus (sampleDb Processing) (param_importId emptyCreatedAtRequest)
       = Some (sampleSession Processing)
   \<and> jsNumber sampleEnv (param_site emptyCreatedAtRequest) = Some (siteId (sampleSession Processing))
   \<and> status (sampleSession Processing) = Processing
   \<and> detectPlatform sampleEnv (sampleSession Processing) [toUmamiEvent (\<lambda>_. JUndefined)]
       = Some (''umami'', True)
   \<and> sites (sampleDb Processing) (siteId (sampleSession Processing)) = Some ''org-1''
   \<and> quotaTracker_create sampleEnv ''org-1'' = Inr ()
   \<and> list_all (\<lambda>e. created_at e = []) [toUmamiEvent (\<lambda>_. JUndefined)]
   \<and> 0 < length (inFlight sampleManager)
   \<and> canImportEvent sampleEnv () [] = (True, ())
   \<and> fst (batchImportEvents sampleEnv (sampleDb Processing) emptyCreatedAtRequest)
       = \<lparr> statusCode = 200, success = Some True, importedCount = Some 0,
           resp_quotaExceeded = Some True,
           message = Some (quotaMessage 1 (0, 12)), error = None \<rparr>
   \<and> (\<exists>s'. importStatus
              (snd (batchImportEvents sampleEnv (sampleDb Processing) emptyCreatedAtRequest))
              sampleImportId = Some s'
            \<and> importedEvents s' = 0 \<and> status s' = Completed
            \<and> errorMessage s' = Some (quotaMessage 1 (0, 12)))
   \<and> completions
        (dispatch sampleManager (FetchSettled 0 (HttpResponse
           (fst (batchImportEvents sampleEnv (sampleDb Processing) emptyCreatedAtRequest)))))
       = [(True, quotaMessage 1 (0, 12))]
   \<and> sent (run (dispatch sampleManager (FetchSettled 0 (HttpResponse
             (fst (batchImportEvents sampleEnv (sampleDb Processing) emptyCreatedAtRequest)))))
           [Step (Some sampleRow), ParseComplete]) = sent sampleManager"
proof -
  have rq: "emptyCreatedAtRequest
      = sampleRequest\<lparr> events := [toUmamiEvent (\<lambda>_. JUndefined)] \<rparr>"
    by (rule emptyCreatedAtRequest_def)
  have v: "validateRequest sampleEnv emptyCreatedAtRequest
             = Some [toUmamiEvent (\<lambda>_. JUndefined)]"
    by (simp add: validateRequest_def sample_uuid sampleEnv_def rq sampleRequest_def)
  have a: "userHasAdminAccess sampleEnv"
    by (simp add: sampleEnv_def)
  have s: "importStatus (sampleDb Processing) (param_importId emptyCreatedAtRequest)
             = Some (sampleSession Processing)"
    by (simp add: sampleDb_def rq sampleRequest_def)
  have n: "jsNumber sampleEnv (param_site emptyCreatedAtRequest)
             = Some (siteId (sampleSession Processing))"
    by (simp add: sampleEnv_def rq sampleRequest_def sampleSession_def)
  note st = sample_session_facts(3) [of Processing]
  have st': "status (sampleSession Processing) = Pending
           \<or> status (sampleSession Processing) = Processing"
    using st by simp
  note p = sample_detects [of Processing "toUmamiEvent (\<lambda>_. JUndefined)"]
  note o = sample_session_facts(4) [of Processing]
  have q: "quotaTracker_create sampleEnv ''org-1'' = Inr ()"
    by (simp add: sampleEnv_def)
  have e: "list_all (\<lambda>e. created_at e = []) [toUmamiEvent (\<lambda>_. JUndefined)]"
    by (simp add: undefined_row_created_at)
  have i: "0 < length (inFlight sampleManager)"
    by (simp add: sampleManager_inFlight)
  have adm: "canImportEvent sampleEnv () [] = (True, ())"
    by (simp add: sampleEnv_def)
  have gs: "getSummary sampleEnv () = (0, 12)"
    by (simp add: sampleEnv_def)
  have id: "param_importId emptyCreatedAtRequest = sampleImportId"
      "isLastBatch emptyCreatedAtRequest = Some True"
    by (simp_all add: rq sampleRequest_def)
  note main = empty_created_at_reported_as_quota [OF v a s n st' p o q e i]
  note m2 = main [THEN conjunct2, THEN conjunct1]
  note m3 = main [THEN conjunct2, THEN conjunct2, THEN conjunct1]
  note m6 = main [THEN conjunct2, THEN conjunct2, THEN conjunct2, THEN conjunct2,
                  THEN conjunct2, THEN conjunct1]
  note m7 = main [THEN conjunct2, THEN conjunct2, THEN conjunct2, THEN conjunct2,
                  THEN conjunct2, THEN conjunct2]
  from m2 have r2: "fst (batchImportEvents sampleEnv (sampleDb Processing) emptyCreatedAtRequest)
       = \<lparr> statusCode = 200, success = Some True, importedCount = Some 0,
           resp_quotaExceeded = Some True,
           message = Some (quotaMessage 1 (0, 12)), error = None \<rparr>"
    by (simp add: gs)
  from m3 have r3: "\<exists>s'. importStatus
              (snd (batchImportEvents sampleEnv (sampleDb Processing) emptyCreatedAtRequest))
              sampleImportId = Some s'
            \<and> importedEvents s' = 0 \<and> status s' = Completed
            \<and> errorMessage s' = Some (quotaMessage 1 (0, 12))"
    by (simp add: gs id sample_session_facts)
  from m6 have r6: "completions
        (dispatch sampleManager (FetchSettled 0 (HttpResponse
           (fst (batchImportEvents sampleEnv (sampleDb Processing) emptyCreatedAtRequest)))))
       = [(True, quotaMessage 1 (0, 12))]"
    by (simp add: gs sampleManager_callback)
  note r7 = m7 [THEN spec, of "[Step (Some sampleRow), ParseComplete]"]
  from v a s n st p o q e i adm r2 r3 r6 r7 show ?thesis
    by (intro conjI)
qed




text \<open>
  The order of the two statements in the handler: the move from pending to processing
  comes before the look at the platform. When the platform of a pending session cannot
  be detected from the events the handler is given, the reply is the rejection and the
  state returned has the session as processing.
\<close>

lemma handleBatch_writes_before_platform_check:
  assumes "status s = Pending" and "detectPlatform env s evs = None"
  shows "handleBatch env db site iid isLast evs s
           = (errorReply 400 ''Unable to detect platform from event structure'',
              updateImportStatus db iid Processing None)"
  using assms by (simp add: handleBatch_def Let_def)








text \<open>
  Claim C2 fails on the code. At the end of an input without data rows the coordinator
  sends exactly one request, with no events and \<^verbatim>\<open>isLastBatch\<close> set. The handler's
  schema wants at least one event (\<^verbatim>\<open>.min(1)\<close>): whatever the environment and the
  database, it answers this request with 400 "Validation error" and writes nothing, so
  the session stays as it was. The coordinator then reports "Upload failed: Validation
  error".
\<close>

theorem empty_file_final_batch_rejected:
  "sent (run (startImport (newManager cb) site iid ''2024-01-01'' ''2024-01-31'') [ParseComplete])
     = [\<lparr> param_site = showInt site, param_importId = iid, events = [],
          isLastBatch = Some True \<rparr>]
   \<and> batchImportEvents env db
        \<lparr> param_site = showInt site, param_importId = iid, events = [],
          isLastBatch = Some True \<rparr>
       = (errorReply 400 ''Validation error'', db)
   \<and> completions
        (run (startImport (newManager cb) site iid ''2024-01-01'' ''2024-01-31'')
           [ParseComplete, FetchSettled 0 (HttpResponse (errorReply 400 ''Validation error''))])
       = (if cb then [(False, ''Upload failed: Validation error'')] else [])"
proof -
  let ?m0 = "startImport (newManager cb) site iid ''2024-01-01'' ''2024-01-31''"
  note m0 = startImport_valid [OF sample_range_eq, of cb site iid]
  have r1: "run ?m0 [ParseComplete]
      = (newManager cb)\<lparr> mgr_siteId := site, mgr_importId := iid, dateRange := sampleRange,
           parsingComplete := True, uploadInProgress := True,
           inFlight := [\<lparr> param_site = showInt site, param_importId = iid, events = [],
                           isLastBatch = Some True \<rparr>],
           sent := [\<lparr> param_site = showInt site, param_importId = iid, events = [],
                       isLastBatch = Some True \<rparr>] \<rparr>"
    unfolding m0
    by (simp add: run_def dispatch_def handleParseComplete_def sendBatch_def uploadBatch_def
          requestFor_def newManager_def Let_def)
  have a: "sent (run ?m0 [ParseComplete])
     = [\<lparr> param_site = showInt site, param_importId = iid, events = [],
          isLastBatch = Some True \<rparr>]"
    unfolding r1 by simp
  have b: "batchImportEvents env db
        \<lparr> param_site = showInt site, param_importId = iid, events = [],
          isLastBatch = Some True \<rparr>
       = (errorReply 400 ''Validation error'', db)"
    by (simp add: batchImportEvents_def validateRequest_def)
  have "run ?m0 [ParseComplete, FetchSettled 0 (HttpResponse (errorReply 400 ''Validation error''))]
      = dispatch (run ?m0 [ParseComplete])
          (FetchSettled 0 (HttpResponse (errorReply 400 ''Validation error'')))"
    by (simp add: run_def)
  then have c: "completions
        (run ?m0 [ParseComplete, FetchSettled 0 (HttpResponse (errorReply 400 ''Validation error''))])
       = (if cb then [(False, ''Upload failed: Validation error'')] else [])"
    unfolding r1
    by (simp add: dispatch_def uploadBatch_resume_def response_ok_def errorReply_def
          uploadFailed_def terminate_def onComplete_def orDefault_def newManager_def)
  from a b c show ?thesis by (intro conjI)
qed

subsection \<open>The worker-based version\<close>

text \<open>
  The manager of the worker-based version starts an upload for every chunk it is sent,
  whatever the state of the upload before it: after two chunks two uploads are in flight.
\<close>

lemma worker_manager_two_uploads:
  "v1_inFlight (handleWorkerMessage (handleWorkerMessage (startImport_v1 p c)
                   (CHUNK_READY b1 n1 s1 e1)) (CHUNK_READY b2 n2 s2 e2)) = [b1, b2]"
  by (simp add: handleWorkerMessage_def uploadBatch_v1_def notifyProgress_def startImport_v1_def)

text \<open>The chunks the worker posts for a list of events that all pass the filter.\<close>

lemma chunk_messages_snoc:
  "map (\<lambda>i. CHUNK_READY (take BATCH_SIZE (drop (i * BATCH_SIZE) (xs @ [x])))
               (Suc i * BATCH_SIZE) 0 0) [0..<Suc (length xs) div BATCH_SIZE]
     = map (\<lambda>i. CHUNK_READY (take BATCH_SIZE (drop (i * BATCH_SIZE) xs))
                  (Suc i * BATCH_SIZE) 0 0) [0..<length xs div BATCH_SIZE]
       @ (if Suc (length xs) mod BATCH_SIZE = 0
          then [CHUNK_READY (partialBatch xs @ [x]) (Suc (length xs)) 0 0] else [])"
proof -
  have same: "map (\<lambda>i. CHUNK_READY (take BATCH_SIZE (drop (i * BATCH_SIZE) (xs @ [x])))
                         (Suc i * BATCH_SIZE) 0 0) [0..<length xs div BATCH_SIZE]
            = map (\<lambda>i. CHUNK_READY (take BATCH_SIZE (drop (i * BATCH_SIZE) xs))
                         (Suc i * BATCH_SIZE) 0 0) [0..<length xs div BATCH_SIZE]"
  proof (rule map_cong [OF refl])
    fix i
    assume "i \<in> set [0..<length xs div BATCH_SIZE]"
    then have "i < length xs div BATCH_SIZE" by simp
    then show "CHUNK_READY (take BATCH_SIZE (drop (i * BATCH_SIZE) (xs @ [x])))
                 (Suc i * BATCH_SIZE) 0 0
             = CHUNK_READY (take BATCH_SIZE (drop (i * BATCH_SIZE) xs)) (Suc i * BATCH_SIZE) 0 0"
      by (simp only: full_batch_unchanged)
  qed
  show ?thesis
  proof (cases "Suc (length xs) mod BATCH_SIZE = 0")
    case True
    then have d: "Suc (length xs) div BATCH_SIZE = Suc (length xs div BATCH_SIZE)"
      by (simp add: div_Suc)
    have total: "Suc (length xs div BATCH_SIZE) * BATCH_SIZE = Suc (length xs)"
      using True d by (metis div_mult_mod_eq add.right_neutral)
    from fullBatches_snoc [of xs x] True d
    have lastfull: "take BATCH_SIZE (drop (length xs div BATCH_SIZE * BATCH_SIZE) (xs @ [x]))
            = partialBatch xs @ [x]"
      by (simp add: fullBatches_def)
    have "map (\<lambda>i. CHUNK_READY (take BATCH_SIZE (drop (i * BATCH_SIZE) (xs @ [x])))
               (Suc i * BATCH_SIZE) 0 0) [0..<Suc (length xs) div BATCH_SIZE]
        = map (\<lambda>i. CHUNK_READY (take BATCH_SIZE (drop (i * BATCH_SIZE) (xs @ [x])))
               (Suc i * BATCH_SIZE) 0 0) [0..<length xs div BATCH_SIZE]
          @ [CHUNK_READY (take BATCH_SIZE (drop (length xs div BATCH_SIZE * BATCH_SIZE) (xs @ [x])))
               (Suc (length xs div BATCH_SIZE) * BATCH_SIZE) 0 0]"
      unfolding d by (simp del: mult_Suc)
    also have "\<dots> = map (\<lambda>i. CHUNK_READY (take BATCH_SIZE (drop (i * BATCH_SIZE) xs))
                  (Suc i * BATCH_SIZE) 0 0) [0..<length xs div BATCH_SIZE]
          @ [CHUNK_READY (partialBatch xs @ [x]) (Suc (length xs)) 0 0]"
      by (simp only: same lastfull total)
    finally show ?thesis using True by simp
  next
    case False
    then have "Suc (length xs) div BATCH_SIZE = length xs div BATCH_SIZE"
      by (simp add: div_Suc)
    with same False show ?thesis by simp
  qed
qed

lemma handleParsedRow_worker_accepted:
  assumes "accepted (wk_dateRange w) row"
  shows "handleParsedRow_worker w row =
           (if BATCH_SIZE \<le> Suc (length (wk_currentBatch w))
            then w\<lparr> wk_currentBatch := [], totalParsed := totalParsed w + 1,
                    posted := posted w
                      @ [CHUNK_READY (wk_currentBatch w @ [toUmamiEvent row])
                           (totalParsed w + 1) (totalSkipped w) (totalErrors w)] \<rparr>
            else w\<lparr> wk_currentBatch := wk_currentBatch w @ [toUmamiEvent row],
                    totalParsed := totalParsed w + 1 \<rparr>)"
  using assms
  by (simp add: handleParsedRow_worker_def accepted_def Let_def sendChunk_def)

lemma worker_invariant:
  assumes "wk_currentBatch w0 = []" and "totalParsed w0 = 0" and "totalSkipped w0 = 0"
      and "totalErrors w0 = 0" and "posted w0 = []"
      and "list_all (accepted (wk_dateRange w0)) rows"
  shows "foldl (\<lambda>w' (row, hasErrors). step_worker w' (Some row) hasErrors) w0
           (map (\<lambda>row. (row, False)) rows)
         = w0\<lparr> wk_currentBatch := partialBatch (map toUmamiEvent rows),
                totalParsed := length rows,
                posted := map (\<lambda>i. CHUNK_READY
                                      (take BATCH_SIZE (drop (i * BATCH_SIZE) (map toUmamiEvent rows)))
                                      (Suc i * BATCH_SIZE) 0 0)
                            [0..<length rows div BATCH_SIZE] \<rparr>"
  using assms(6)
proof (induction rows rule: rev_induct)
  case Nil
  show ?case using assms(1-5) by (simp add: partialBatch_def)
next
  case (snoc row rows)
  let ?xs = "map toUmamiEvent rows"
  let ?W = "w0\<lparr> wk_currentBatch := partialBatch ?xs, totalParsed := length rows,
                posted := map (\<lambda>i. CHUNK_READY (take BATCH_SIZE (drop (i * BATCH_SIZE) ?xs))
                                      (Suc i * BATCH_SIZE) 0 0)
                            [0..<length rows div BATCH_SIZE] \<rparr>"
  from snoc.prems have rows: "list_all (accepted (wk_dateRange w0)) rows"
    and row: "accepted (wk_dateRange w0) row" by simp_all
  have acc: "accepted (wk_dateRange ?W) row" using row by simp
  have full: "BATCH_SIZE \<le> Suc (length (wk_currentBatch ?W))
                \<longleftrightarrow> Suc (length ?xs) mod BATCH_SIZE = 0"
    using batch_full_iff [of "length ?xs"] by (simp add: length_partialBatch)
  have "foldl (\<lambda>w' (row, hasErrors). step_worker w' (Some row) hasErrors) w0
           (map (\<lambda>row. (row, False)) (rows @ [row]))
          = handleParsedRow_worker ?W row"
    using snoc.IH [OF rows] by (simp add: step_worker_def)
  also have "\<dots> = w0\<lparr> wk_currentBatch := partialBatch (?xs @ [toUmamiEvent row]),
                totalParsed := Suc (length rows),
                posted := map (\<lambda>i. CHUNK_READY
                                      (take BATCH_SIZE (drop (i * BATCH_SIZE) (?xs @ [toUmamiEvent row])))
                                      (Suc i * BATCH_SIZE) 0 0)
                            [0..<Suc (length ?xs) div BATCH_SIZE] \<rparr>"
    unfolding handleParsedRow_worker_accepted [OF acc] full chunk_messages_snoc partialBatch_snoc
    using assms(3,4) by simp
  finally show ?case by simp
qed

lemma parseStart_valid:
  assumes "createDateRangeFilter earliest latest = Inr r"
  shows "parseStart newWorker earliest latest = Inr (newWorker\<lparr> wk_dateRange := r \<rparr>)"
  using assms by (simp add: parseStart_def newWorker_def)

text \<open>
  The worker on 12001 rows that pass the filter: three chunks, of the first 5000, the
  next 5000 and the last 2001 events, each with the number of rows parsed so far, and
  then the message that the input has ended.
\<close>

lemma worker_12001_rows:
  assumes "createDateRangeFilter earliest latest = Inr r"
      and "list_all (accepted r) rows"
      and "length rows = 12001"
  shows "\<exists>w. parseStart newWorker earliest latest = Inr w
           \<and> posted (parseCSV w (map (\<lambda>row. (row, False)) rows))
               = [CHUNK_READY (take 5000 (map toUmamiEvent rows)) 5000 0 0,
                  CHUNK_READY (take 5000 (drop 5000 (map toUmamiEvent rows))) 10000 0 0,
                  CHUNK_READY (drop 10000 (map toUmamiEvent rows)) 12001 0 0,
                  COMPLETE 12001 0 0]"
proof -
  let ?w = "newWorker\<lparr> wk_dateRange := r \<rparr>"
  let ?xs = "map toUmamiEvent rows"
  have len: "length ?xs = 12001" using assms(3) by simp
  have d: "length rows div BATCH_SIZE = 2"
    by (simp add: assms(3) BATCH_SIZE_def)
  have acc: "list_all (accepted (wk_dateRange ?w)) rows"
    using assms(2) by simp
  have inv: "foldl (\<lambda>w' (row, hasErrors). step_worker w' (Some row) hasErrors) ?w
           (map (\<lambda>row. (row, False)) rows)
         = ?w\<lparr> wk_currentBatch := drop 10000 ?xs, totalParsed := 12001,
                posted := [CHUNK_READY (take 5000 ?xs) 5000 0 0,
                           CHUNK_READY (take 5000 (drop 5000 ?xs)) 10000 0 0] \<rparr>"
    using worker_invariant [of ?w rows, OF _ _ _ _ _ acc]
    unfolding d upt_two fullBatches_12001(2) [OF len] assms(3)
    by (simp add: newWorker_def BATCH_SIZE_def upt_two)
  have "length (drop 10000 ?xs) = 2001" using len by simp
  then have ne: "0 < length (drop 10000 ?xs)" by simp
  have "posted (parseCSV ?w (map (\<lambda>row. (row, False)) rows))
               = [CHUNK_READY (take 5000 ?xs) 5000 0 0,
                  CHUNK_READY (take 5000 (drop 5000 ?xs)) 10000 0 0,
                  CHUNK_READY (drop 10000 ?xs) 12001 0 0,
                  COMPLETE 12001 0 0]"
    unfolding parseCSV_def inv using ne
    by (simp add: complete_worker_def sendChunk_def Let_def newWorker_def)
  with parseStart_valid [OF assms(1)] show ?thesis by simp
qed

end
